theory Spec2Isabelle
  imports Complex_Main "HOL-Library.Char_ord" "HOL-Library.List_Lexorder"
begin

section \<open>Python values shared by the modules\<close>

text \<open>
  The exception classes the forwarding pipeline raises or catches.  Messages are left out:
  no handler of the program looks at them.  \<open>RequestException\<close> stands for the whole
  \<open>requests.exceptions.RequestException\<close> hierarchy (connection errors, time-outs,
  \<open>HTTPError\<close> of \<open>raise_for_status\<close>, the JSON decoding error of \<open>response.json()\<close>).
\<close>

datatype py_exn =
    CrusoeAPIError
  | SplunkHECError
  | RequestException
  | JSONDecodeError
  | ValueError
  | KeyError
  | TypeError
  | AttributeError
  | ZeroDivisionError
  | UnicodeEncodeError
  | OSError

text \<open>
  A parsed JSON document as Python holds it after \<open>json.load\<close>: an object is a \<open>dict\<close>,
  the list of its items in insertion order, a key occurring once.
\<close>

datatype json =
    JNull
  | JBool bool
  | JNum real
  | JStr string
  | JArr "json list"
  | JObj "(string \<times> json) list"

text \<open>
  An audit-log event is a \<open>dict\<close> from field names to values of some type \<open>'v\<close>; the
  program only ever reads the fields through \<open>event.get(name, '')\<close> and \<open>str\<close>.
\<close>

type_synonym 'v event = "string \<Rightarrow> 'v option"

section \<open>deduplicator.py\<close>

subsection \<open>Fingerprints\<close>

text \<open>Python's \<open>sep.join(xs)\<close>.\<close>

fun join :: "string \<Rightarrow> string list \<Rightarrow> string" where
  "join sep [] = []"
| "join sep [x] = x"
| "join sep (x # y # ys) = x @ sep @ join sep (y # ys)"

text \<open>
  \<open>str(event.get(name, ''))\<close>: the default is the empty string, and \<open>str\<close> of a string is
  the string itself.  \<open>py_str\<close> is Python's \<open>str\<close> on the values of the event.
\<close>

definition field_str :: "('v \<Rightarrow> string) \<Rightarrow> 'v event \<Rightarrow> string \<Rightarrow> string" where
  "field_str py_str event name = (case event name of None \<Rightarrow> [] | Some v \<Rightarrow> py_str v)"

definition identity_fields :: "string list" where
  "identity_fields =
     [''start_time'', ''actor_id'', ''action'', ''target_type'', ''target_id'',
      ''organization_id'']"

definition key_fields :: "('v \<Rightarrow> string) \<Rightarrow> 'v event \<Rightarrow> string list" where
  "key_fields py_str event =
     [field_str py_str event ''start_time'',
      field_str py_str event ''actor_id'',
      field_str py_str event ''action'',
      field_str py_str event ''target_type'',
      field_str py_str event ''target_id'',
      field_str py_str event ''organization_id'']"

text \<open>
  \<open>_generate_event_hash\<close>.  The parameter \<open>sha256_hex\<close> is
  \<open>\<lambda>s. hashlib.sha256(s.encode('utf-8')).hexdigest()\<close>, a function of the standard library.
\<close>

definition generate_event_hash ::
  "(string \<Rightarrow> string) \<Rightarrow> ('v \<Rightarrow> string) \<Rightarrow> 'v event \<Rightarrow> string" where
  "generate_event_hash sha256_hex py_str event =
     (let key_string = join ''|'' (key_fields py_str event)
      in sha256_hex key_string)"

subsection \<open>The store\<close>

text \<open>
  The fields of \<open>EventDeduplicator\<close> that the operations read and write.  \<open>seen_events\<close> is
  the dictionary from fingerprint to the time (seconds since the epoch, a Python float, here a
  real number) at which the event was marked as sent.  A Python \<open>dict\<close> keeps its items in
  insertion order, so it is the list of its items; a key occurs once.
\<close>

record event_deduplicator =
  tracking_window_seconds :: int
  enabled :: bool
  seen_events :: "(string \<times> real) list"

text \<open>\<open>key in dict\<close>.\<close>

definition dict_contains :: "('k \<times> 'a) list \<Rightarrow> 'k \<Rightarrow> bool" where
  "dict_contains items k = (k \<in> set (map fst items))"

text \<open>\<open>_cleanup_old_entries\<close>, with the reading of \<open>time.time()\<close> as an argument.\<close>

definition cleanup_old_entries :: "real \<Rightarrow> event_deduplicator \<Rightarrow> event_deduplicator" where
  "cleanup_old_entries current_time d =
     (if \<not> enabled d then d
      else
        let cutoff_time = current_time - real_of_int (tracking_window_seconds d)
        in d\<lparr>seen_events :=
               filter (\<lambda>(event_hash, timestamp). timestamp > cutoff_time) (seen_events d)\<rparr>)"

text \<open>
  \<open>is_duplicate\<close>: the answer and the store after the purge.
\<close>

definition is_duplicate ::
  "(string \<Rightarrow> string) \<Rightarrow> ('v \<Rightarrow> string) \<Rightarrow> real \<Rightarrow> event_deduplicator \<Rightarrow> 'v event
     \<Rightarrow> bool \<times> event_deduplicator" where
  "is_duplicate sha256_hex py_str current_time d event =
     (if \<not> enabled d then (False, d)
      else
        let d' = cleanup_old_entries current_time d;
            event_hash = generate_event_hash sha256_hex py_str event
        in (dict_contains (seen_events d') event_hash, d'))"

text \<open>
  The loop of \<open>filter_duplicates\<close>.  Every call of \<open>is_duplicate\<close> reads the clock anew:
  \<open>clock k\<close> is the reading taken for the event at position \<open>k\<close> of the input.
\<close>

fun filter_loop ::
  "(string \<Rightarrow> string) \<Rightarrow> ('v \<Rightarrow> string) \<Rightarrow> (nat \<Rightarrow> real) \<Rightarrow> nat \<Rightarrow> event_deduplicator
     \<Rightarrow> 'v event list \<Rightarrow> 'v event list \<Rightarrow> 'v event list \<times> event_deduplicator" where
  "filter_loop sha256_hex py_str clock k d unique_events [] = (unique_events, d)"
| "filter_loop sha256_hex py_str clock k d unique_events (event # rest) =
     (case is_duplicate sha256_hex py_str (clock k) d event of
        (dup, d') \<Rightarrow>
          filter_loop sha256_hex py_str clock (Suc k) d'
            (if \<not> dup then unique_events @ [event] else unique_events) rest)"

definition filter_duplicates ::
  "(string \<Rightarrow> string) \<Rightarrow> ('v \<Rightarrow> string) \<Rightarrow> (nat \<Rightarrow> real) \<Rightarrow> event_deduplicator
     \<Rightarrow> 'v event list \<Rightarrow> 'v event list \<times> event_deduplicator" where
  "filter_duplicates sha256_hex py_str clock d events =
     (if \<not> enabled d then (events, d)
      else filter_loop sha256_hex py_str clock 0 d [] events)"

subsection \<open>Persistence\<close>

text \<open>
  What the program finds at the path of the state file: nothing (\<open>exists()\<close> is false), a
  file that \<open>open\<close> cannot read, a file that \<open>json.load\<close> rejects, or a JSON document.
\<close>

datatype state_file = Absent | Unreadable | Unparsable | Parsed json

text \<open>
  \<open>_save_state\<close>.  \<open>write_ok\<close> says whether creating the directory, writing the temporary
  file and renaming it all went through; if one of them raises, the handler logs the error and
  the target file is what it was.  \<open>now_iso\<close> is \<open>datetime.now(timezone.utc).isoformat()\<close>.
\<close>

definition state_document :: "string \<Rightarrow> event_deduplicator \<Rightarrow> json" where
  "state_document now_iso d =
     JObj [(''seen_events'', JObj (map (\<lambda>(event_hash, timestamp). (event_hash, JNum timestamp))
                                      (seen_events d))),
           (''last_updated'', JStr now_iso),
           (''tracking_window_seconds'', JNum (real_of_int (tracking_window_seconds d)))]"

definition save_state :: "bool \<Rightarrow> string \<Rightarrow> event_deduplicator \<Rightarrow> state_file \<Rightarrow> state_file" where
  "save_state write_ok now_iso d file =
     (if \<not> enabled d then file
      else if write_ok then Parsed (state_document now_iso d)
      else file)"

text \<open>The loop of \<open>mark_events_as_sent\<close>.\<close>

fun mark_loop ::
  "(string \<Rightarrow> string) \<Rightarrow> ('v \<Rightarrow> string) \<Rightarrow> real \<Rightarrow> event_deduplicator \<Rightarrow> 'v event list
     \<Rightarrow> event_deduplicator" where
  "mark_loop sha256_hex py_str current_time d [] = d"
| "mark_loop sha256_hex py_str current_time d (event # rest) =
     (let event_hash = generate_event_hash sha256_hex py_str event
      in if \<not> dict_contains (seen_events d) event_hash
         then mark_loop sha256_hex py_str current_time
                (d\<lparr>seen_events := seen_events d @ [(event_hash, current_time)]\<rparr>) rest
         else mark_loop sha256_hex py_str current_time d rest)"

definition mark_events_as_sent ::
  "(string \<Rightarrow> string) \<Rightarrow> ('v \<Rightarrow> string) \<Rightarrow> real \<Rightarrow> bool \<Rightarrow> string
     \<Rightarrow> event_deduplicator \<Rightarrow> state_file \<Rightarrow> 'v event list
     \<Rightarrow> event_deduplicator \<times> state_file" where
  "mark_events_as_sent sha256_hex py_str current_time write_ok now_iso d file events =
     (if \<not> enabled d \<or> events = [] then (d, file)
      else
        let d' = mark_loop sha256_hex py_str current_time d events
        in (d', save_state write_ok now_iso d' file))"

text \<open>
  \<open>float(timestamp)\<close> on a value of the document.  \<open>float_of_str\<close> is Python's \<open>float\<close> on
  strings (\<open>None\<close> where it raises \<open>ValueError\<close>).  Numbers are real numbers here: the
  values \<open>NaN\<close> and \<open>Infinity\<close> of Python's JSON reader, and integers beyond the range of
  a float (an \<open>OverflowError\<close>, which the second handler of \<open>_load_state\<close> catches as
  well), are left out.
\<close>

fun py_float :: "(string \<Rightarrow> real option) \<Rightarrow> json \<Rightarrow> py_exn + real" where
  "py_float float_of_str (JNum r) = Inr r"
| "py_float float_of_str (JBool b) = Inr (if b then 1 else 0)"
| "py_float float_of_str (JStr s) =
     (case float_of_str s of None \<Rightarrow> Inl ValueError | Some r \<Rightarrow> Inr r)"
| "py_float float_of_str JNull = Inl TypeError"
| "py_float float_of_str (JArr xs) = Inl TypeError"
| "py_float float_of_str (JObj kvs) = Inl TypeError"

text \<open>The dictionary comprehension that converts the stored timestamps.\<close>

fun convert_timestamps ::
  "(string \<Rightarrow> real option) \<Rightarrow> (string \<times> json) list \<Rightarrow> py_exn + (string \<times> real) list" where
  "convert_timestamps float_of_str [] = Inr []"
| "convert_timestamps float_of_str ((event_hash, timestamp) # rest) =
     (case py_float float_of_str timestamp of
        Inl e \<Rightarrow> Inl e
      | Inr t \<Rightarrow>
          (case convert_timestamps float_of_str rest of
             Inl e \<Rightarrow> Inl e
           | Inr rest' \<Rightarrow> Inr ((event_hash, t) # rest')))"

text \<open>
  \<open>x.get(key, default)\<close> and \<open>x.items()\<close> on a value of the document: both raise
  \<open>AttributeError\<close> on anything but a \<open>dict\<close>.
\<close>

definition json_get :: "json \<Rightarrow> string \<Rightarrow> json \<Rightarrow> py_exn + json" where
  "json_get x key dflt =
     (case x of
        JObj kvs \<Rightarrow> Inr (case map_of kvs key of None \<Rightarrow> dflt | Some v \<Rightarrow> v)
      | _ \<Rightarrow> Inl AttributeError)"

definition json_items :: "json \<Rightarrow> py_exn + (string \<times> json) list" where
  "json_items x = (case x of JObj kvs \<Rightarrow> Inr kvs | _ \<Rightarrow> Inl AttributeError)"

text \<open>The body of the \<open>try\<close> block of \<open>_load_state\<close>.\<close>

definition load_state_try ::
  "(string \<Rightarrow> real option) \<Rightarrow> real \<Rightarrow> event_deduplicator \<Rightarrow> state_file
     \<Rightarrow> py_exn + event_deduplicator" where
  "load_state_try float_of_str current_time d file =
     (case file of
        Absent \<Rightarrow> Inl OSError
      | Unreadable \<Rightarrow> Inl OSError
      | Unparsable \<Rightarrow> Inl JSONDecodeError
      | Parsed data \<Rightarrow>
          (case json_get data ''seen_events'' (JObj []) of
             Inl e \<Rightarrow> Inl e
           | Inr seen \<Rightarrow>
               (case json_items seen of
                  Inl e \<Rightarrow> Inl e
                | Inr items \<Rightarrow>
                    (case convert_timestamps float_of_str items of
                       Inl e \<Rightarrow> Inl e
                     | Inr converted \<Rightarrow>
                         Inr (cleanup_old_entries current_time
                                (d\<lparr>seen_events := converted\<rparr>))))))"

text \<open>
  \<open>_load_state\<close>: the guard, the \<open>try\<close> block and its two handlers.  The second handler,
  \<open>except Exception\<close>, catches every class of \<open>py_exn\<close>.
\<close>

definition load_state ::
  "(string \<Rightarrow> real option) \<Rightarrow> real \<Rightarrow> event_deduplicator \<Rightarrow> state_file
     \<Rightarrow> py_exn + event_deduplicator" where
  "load_state float_of_str current_time d file =
     (if \<not> enabled d \<or> file = Absent then Inr d
      else
        (case load_state_try float_of_str current_time d file of
           Inr d' \<Rightarrow> Inr d'
         | Inl e \<Rightarrow>
             if e \<in> {JSONDecodeError, ValueError, KeyError}
             then Inr (d\<lparr>seen_events := []\<rparr>)
             else Inr (d\<lparr>seen_events := []\<rparr>)))"

text \<open>\<open>EventDeduplicator.__init__\<close>.\<close>

definition new_deduplicator ::
  "(string \<Rightarrow> real option) \<Rightarrow> real \<Rightarrow> int \<Rightarrow> bool \<Rightarrow> state_file
     \<Rightarrow> py_exn + event_deduplicator" where
  "new_deduplicator float_of_str current_time window en file =
     load_state float_of_str current_time
       \<lparr>tracking_window_seconds = window, enabled = en, seen_events = []\<rparr> file"

section \<open>splunk_hec.py\<close>

record splunk_config =
  hec_url :: string
  index :: "string option"
  sourcetype :: string
  source :: string

text \<open>The envelope \<open>_format_event\<close> builds; \<open>env_index\<close> is absent unless an index is set.\<close>

record 'v envelope =
  env_time :: real
  env_event :: "'v event"
  env_sourcetype :: string
  env_source :: string
  env_index :: "string option"

text \<open>Truth value of an optional string: \<open>None\<close> and \<open>''\<close> are false.\<close>

definition truthy :: "string option \<Rightarrow> bool" where
  "truthy x = (case x of None \<Rightarrow> False | Some s \<Rightarrow> s \<noteq> [])"

text \<open>
  \<open>_format_event\<close>.  \<open>parse_timestamp v\<close> is
  \<open>datetime.fromisoformat(v.replace('Z', '+00:00')).timestamp()\<close>, \<open>None\<close> where that raises
  \<open>ValueError\<close> or \<open>AttributeError\<close>; \<open>current_time\<close> is the reading of \<open>time.time()\<close>.
\<close>

definition format_event ::
  "('v \<Rightarrow> real option) \<Rightarrow> real \<Rightarrow> splunk_config \<Rightarrow> 'v event \<Rightarrow> 'v envelope" where
  "format_event parse_timestamp current_time cfg log_entry =
     (let timestamp = (case log_entry ''timestamp'' of
                         None \<Rightarrow> None
                       | Some v \<Rightarrow> parse_timestamp v);
          timestamp = (case timestamp of None \<Rightarrow> current_time | Some t \<Rightarrow> t)
      in \<lparr>env_time = timestamp, env_event = log_entry,
          env_sourcetype = sourcetype cfg, env_source = source cfg,
          env_index = (if truthy (index cfg) then index cfg else None)\<rparr>)"

text \<open>
  What a call of the \<open>requests\<close> session comes back with: a response, with its status code
  and the result of \<open>response.json()\<close> (\<open>None\<close> where the body is not JSON and the call
  raises the JSON decoding error of \<open>requests\<close>), or a \<open>RequestException\<close> once the retries of
  the transport are used up.
\<close>

datatype http_outcome = Responded nat "json option" | Request_failed

text \<open>\<open>response.raise_for_status()\<close> raises on the status codes 400 to 599.\<close>

definition raises_for_status :: "nat \<Rightarrow> bool" where
  "raises_for_status status = (400 \<le> status \<and> status < 600)"

text \<open>
  \<open>send_events\<close>.  \<open>post url payload\<close> is \<open>self.session.post\<close>, \<open>json_dumps\<close> the serialiser,
  \<open>clock k\<close> the clock reading while the entry at position \<open>k\<close> is formatted.  Every
  \<open>RequestException\<close> is turned into \<open>SplunkHECError\<close> by the handler; the \<open>AttributeError\<close>
  of \<open>.get\<close> on a body that is not a \<open>dict\<close> is not caught.
\<close>

definition ndjson_payload ::
  "('v envelope \<Rightarrow> string) \<Rightarrow> ('v \<Rightarrow> real option) \<Rightarrow> (nat \<Rightarrow> real) \<Rightarrow> splunk_config
     \<Rightarrow> 'v event list \<Rightarrow> string" where
  "ndjson_payload json_dumps parse_timestamp clock cfg log_entries =
     (let formatted_events =
            map (\<lambda>(k, entry). format_event parse_timestamp (clock k) cfg entry)
              (enumerate 0 log_entries)
      in join [CHR 0x0A] (map json_dumps formatted_events))"

definition send_events ::
  "(string \<Rightarrow> string \<Rightarrow> http_outcome) \<Rightarrow> ('v envelope \<Rightarrow> string) \<Rightarrow> ('v \<Rightarrow> real option)
     \<Rightarrow> (nat \<Rightarrow> real) \<Rightarrow> splunk_config \<Rightarrow> 'v event list \<Rightarrow> py_exn + bool" where
  "send_events post json_dumps parse_timestamp clock cfg log_entries =
     (if log_entries = [] then Inr True
      else
        let payload = ndjson_payload json_dumps parse_timestamp clock cfg log_entries
        in case post (hec_url cfg) payload of
             Request_failed \<Rightarrow> Inl SplunkHECError
           | Responded status body \<Rightarrow>
               if raises_for_status status then Inl SplunkHECError
               else
                 (case body of
                    None \<Rightarrow> Inl SplunkHECError
                  | Some response_data \<Rightarrow>
                      (case json_get response_data ''text'' JNull of
                         Inl e \<Rightarrow> Inl e
                       | Inr text \<Rightarrow>
                           if text = JStr ''Success'' then Inr True
                           else Inl SplunkHECError)))"

text \<open>\<open>range(0, n, step)\<close> for a step other than zero.\<close>

definition py_range :: "nat \<Rightarrow> int \<Rightarrow> nat list" where
  "py_range n step =
     (if step > 0 then map (\<lambda>k. k * nat step) [0 ..< (n + nat step - 1) div nat step]
      else [])"

text \<open>
  The loop of \<open>send_events_batch\<close> over the start indices.  \<open>send batch_num batch\<close> is the call
  \<open>self.send_events(batch)\<close> for the batch numbered \<open>batch_num\<close>, so that its outcome may
  depend on what the sink did before.  Only \<open>SplunkHECError\<close> is caught.
\<close>

fun batch_loop ::
  "(nat \<Rightarrow> 'e list \<Rightarrow> py_exn + bool) \<Rightarrow> 'e list \<Rightarrow> nat \<Rightarrow> nat list \<Rightarrow> int \<Rightarrow> 'e list
     \<Rightarrow> py_exn + (int \<times> 'e list)" where
  "batch_loop send log_entries batch_size [] total_sent successfully_sent_events =
     Inr (total_sent, successfully_sent_events)"
| "batch_loop send log_entries batch_size (i # rest) total_sent successfully_sent_events =
     (let batch = take batch_size (drop i log_entries);
          batch_num = i div batch_size + 1
      in case send batch_num batch of
           Inr ok \<Rightarrow>
             batch_loop send log_entries batch_size rest
               (total_sent + int (length batch)) (successfully_sent_events @ batch)
         | Inl e \<Rightarrow>
             if e = SplunkHECError
             then batch_loop send log_entries batch_size rest total_sent
                    successfully_sent_events
             else Inl e)"

text \<open>
  \<open>send_events_batch\<close>.  With \<open>batch_size = 0\<close> the computation of \<open>total_batches\<close> divides
  by zero.
\<close>

definition send_events_batch ::
  "(nat \<Rightarrow> 'e list \<Rightarrow> py_exn + bool) \<Rightarrow> 'e list \<Rightarrow> int \<Rightarrow> py_exn + (int \<times> 'e list)" where
  "send_events_batch send log_entries batch_size =
     (if log_entries = [] then Inr (0, [])
      else if batch_size = 0 then Inl ZeroDivisionError
      else batch_loop send log_entries (nat batch_size)
             (py_range (length log_entries) batch_size) 0 [])"


section \<open>crusoe_client.py\<close>

record crusoe_config =
  api_token :: "string option"
  access_key_id :: "string option"
  secret_access_key :: "string option"
  base_url :: string
  organization_id :: string

text \<open>The values of query parameters: strings and integers.\<close>

datatype param_value = PStr string | PInt int

text \<open>
  The functions of the standard library that the signature uses: \<open>urlparse(url).path\<close>,
  \<open>urlencode\<close>, \<open>base64.urlsafe_b64decode\<close> (\<open>None\<close> where it raises),
  \<open>hmac.new(key, msg, hashlib.sha256).digest()\<close> and \<open>base64.urlsafe_b64encode\<close>.
\<close>

record signing_lib =
  urlparse_path :: "string \<Rightarrow> string"
  urlencode :: "(string \<times> param_value) list \<Rightarrow> string"
  urlsafe_b64decode :: "string \<Rightarrow> string option"
  hmac_sha256 :: "string \<Rightarrow> string \<Rightarrow> string"
  urlsafe_b64encode :: "string \<Rightarrow> string"

definition rstrip_eq :: "string \<Rightarrow> string" where
  "rstrip_eq s = rev (dropWhile (\<lambda>c. c = CHR ''='') (rev s))"

definition is_ascii :: "string \<Rightarrow> bool" where
  "is_ascii s = (\<forall>c \<in> set s. (of_char c :: nat) < 128)"

text \<open>
  \<open>_create_crusoe_signature\<close>.  \<open>now_str\<close> is
  \<open>str(datetime.now(timezone.utc).replace(microsecond=0))\<close>.  Whatever the \<open>try\<close> block
  around the decoding raises becomes \<open>CrusoeAPIError\<close>: a rejected secret, and also a
  secret that is \<open>None\<close>, which cannot be padded.
\<close>

definition create_crusoe_signature ::
  "signing_lib \<Rightarrow> string \<Rightarrow> crusoe_config \<Rightarrow> string \<Rightarrow> string
     \<Rightarrow> (string \<times> param_value) list \<Rightarrow> py_exn + (string \<times> string) list" where
  "create_crusoe_signature lib now_str cfg method url params =
     (let full_path = urlparse_path lib url;
          http_path = (if take 10 full_path = ''/v1alpha5/'' then drop 10 full_path
                       else full_path);
          canonicalized_query_params =
            (if params \<noteq> [] then urlencode lib (sort_key fst params) else []);
          timestamp = map (\<lambda>c. if c = CHR '' '' then CHR ''T'' else c) now_str;
          api_version = ''/v1alpha5/'';
          payload = api_version @ http_path @ [CHR 0x0A] @ canonicalized_query_params
                      @ [CHR 0x0A] @ method @ [CHR 0x0A] @ timestamp @ [CHR 0x0A];
          decoded = (case secret_access_key cfg of
                       None \<Rightarrow> None
                     | Some secret \<Rightarrow>
                         let secret_key_padded =
                               secret @ replicate (nat ((- int (length secret)) mod 4))
                                          (CHR ''='')
                         in urlsafe_b64decode lib secret_key_padded)
      in case decoded of
           None \<Rightarrow> Inl CrusoeAPIError
         | Some decoded_secret \<Rightarrow>
             if \<not> is_ascii payload then Inl UnicodeEncodeError
             else
               let signature_bytes = hmac_sha256 lib decoded_secret payload;
                   signature = rstrip_eq (urlsafe_b64encode lib signature_bytes);
                   signature_version = ''1.0'';
                   access_key = (case access_key_id cfg of
                                   None \<Rightarrow> ''None''
                                 | Some a \<Rightarrow> a);
                   auth_value = signature_version @ '':'' @ access_key @ '':'' @ signature
               in Inr [(''X-Crusoe-Timestamp'', timestamp),
                       (''Authorization'', ''Bearer '' @ auth_value)])"

text \<open>\<open>_sign_request\<close>: token mode, keyed mode, or no authentication.\<close>

definition sign_request ::
  "signing_lib \<Rightarrow> string \<Rightarrow> crusoe_config \<Rightarrow> string \<Rightarrow> string
     \<Rightarrow> (string \<times> param_value) list \<Rightarrow> py_exn + (string \<times> string) list" where
  "sign_request lib now_str cfg method url params =
     (if truthy (api_token cfg)
      then Inr [(''Authorization'', ''Bearer '' @ the (api_token cfg))]
      else if truthy (access_key_id cfg) \<and> truthy (secret_access_key cfg)
      then create_crusoe_signature lib now_str cfg method url params
      else Inr [])"

text \<open>
  The query parameters of \<open>get_audit_logs\<close>: a time that is given, a limit and an offset that
  are given and not zero.  \<open>isoformat\<close> is \<open>datetime.isoformat\<close>; times are in microseconds
  since the epoch.
\<close>

definition build_params ::
  "(int \<Rightarrow> string) \<Rightarrow> int option \<Rightarrow> int option \<Rightarrow> int option \<Rightarrow> int option
     \<Rightarrow> (string \<times> param_value) list" where
  "build_params isoformat start_time end_time limit offset =
     (case start_time of None \<Rightarrow> [] | Some t \<Rightarrow> [(''start_time'', PStr (isoformat t))])
     @ (case end_time of None \<Rightarrow> [] | Some t \<Rightarrow> [(''end_time'', PStr (isoformat t))])
     @ (case limit of None \<Rightarrow> [] | Some l \<Rightarrow> if l \<noteq> 0 then [(''limit'', PInt l)] else [])
     @ (case offset of None \<Rightarrow> [] | Some off \<Rightarrow>
          if off \<noteq> 0 then [(''offset'', PInt off)] else [])"

text \<open>\<open>len\<close> on a value of a JSON document.\<close>

definition py_len :: "json \<Rightarrow> py_exn + nat" where
  "py_len x =
     (case x of
        JArr xs \<Rightarrow> Inr (length xs)
      | JStr s \<Rightarrow> Inr (length s)
      | JObj kvs \<Rightarrow> Inr (length kvs)
      | _ \<Rightarrow> Inl TypeError)"

definition session_headers :: "(string \<times> string) list" where
  "session_headers =
     [(''Content-Type'', ''application/json''), (''User-Agent'', ''crusoe-splunk-hec/1.0'')]"

text \<open>
  \<open>get_audit_logs\<close>: the result, and the number of requests handed to the session.  The
  handler catches \<open>RequestException\<close> only, so an error of the signature leaves the function
  as it is, before any request is made.
\<close>

definition get_audit_logs ::
  "signing_lib \<Rightarrow> string \<Rightarrow> (int \<Rightarrow> string)
     \<Rightarrow> (string \<Rightarrow> (string \<times> param_value) list \<Rightarrow> (string \<times> string) list \<Rightarrow> http_outcome)
     \<Rightarrow> crusoe_config \<Rightarrow> int option \<Rightarrow> int option \<Rightarrow> int option \<Rightarrow> int option
     \<Rightarrow> (py_exn + json) \<times> nat" where
  "get_audit_logs lib now_str isoformat session_get cfg start_time end_time limit offset =
     (let url = base_url cfg @ ''/organizations/'' @ organization_id cfg @ ''/audit-logs'';
          params = build_params isoformat start_time end_time limit offset
      in case sign_request lib now_str cfg ''GET'' url params of
           Inl e \<Rightarrow> (if e = RequestException then Inl CrusoeAPIError else Inl e, 0)
         | Inr auth_headers \<Rightarrow>
             (case session_get url params (session_headers @ auth_headers) of
                Request_failed \<Rightarrow> (Inl CrusoeAPIError, 1)
              | Responded status body \<Rightarrow>
                  if raises_for_status status then (Inl CrusoeAPIError, 1)
                  else
                    (case body of
                       None \<Rightarrow> (Inl CrusoeAPIError, 1)
                     | Some data \<Rightarrow>
                         (case json_get data ''items'' (JArr []) of
                            Inl e \<Rightarrow> (Inl e, 1)
                          | Inr logs \<Rightarrow>
                              (case py_len logs of
                                 Inl e \<Rightarrow> (Inl e, 1)
                               | Inr n \<Rightarrow> (Inr logs, 1))))))"

text \<open>
  The page that \<open>get_audit_logs_paginated\<close> works with.  The source API answers with a list of
  events under \<open>items\<close>; on any other value the loop's list operations have no meaning, and
  the page is taken as a \<open>TypeError\<close>.
\<close>

definition page_of_logs :: "py_exn + json \<Rightarrow> py_exn + json list" where
  "page_of_logs r =
     (case r of
        Inl e \<Rightarrow> Inl e
      | Inr (JArr xs) \<Rightarrow> Inr xs
      | Inr _ \<Rightarrow> Inl TypeError)"

text \<open>\<open>max_pages and page_count >= max_pages\<close>: \<open>None\<close> and \<open>0\<close> are false.\<close>

definition cap_reached :: "int option \<Rightarrow> nat \<Rightarrow> bool" where
  "cap_reached max_pages page_count =
     (case max_pages of None \<Rightarrow> False | Some m \<Rightarrow> m \<noteq> 0 \<and> int page_count \<ge> m)"

text \<open>
  The \<open>while True\<close> loop of \<open>get_audit_logs_paginated\<close>, which need not end: the first
  argument bounds the number of iterations, and \<open>None\<close> says that the bound was too small.
  \<open>get_logs limit offset\<close> is the call of \<open>get_audit_logs\<close> with the fixed time window.  The
  result comes with the list of the calls made, each as \<open>(limit, offset)\<close>.
\<close>

fun paginate_loop ::
  "nat \<Rightarrow> (int \<Rightarrow> nat \<Rightarrow> py_exn + 'e list) \<Rightarrow> int \<Rightarrow> int option \<Rightarrow> 'e list \<Rightarrow> nat \<Rightarrow> nat
     \<Rightarrow> ((int \<times> nat) list \<times> (py_exn + 'e list)) option" where
  "paginate_loop 0 get_logs page_size max_pages all_logs offset page_count = None"
| "paginate_loop (Suc fuel) get_logs page_size max_pages all_logs offset page_count =
     (if cap_reached max_pages page_count then Some ([], Inr all_logs)
      else
        (case get_logs page_size offset of
           Inl e \<Rightarrow>
             if e = CrusoeAPIError then Some ([(page_size, offset)], Inl CrusoeAPIError)
             else Some ([(page_size, offset)], Inr all_logs)
         | Inr logs \<Rightarrow>
             if logs = [] then Some ([(page_size, offset)], Inr all_logs)
             else if int (length logs) < page_size
             then Some ([(page_size, offset)], Inr (all_logs @ logs))
             else
               map_option (\<lambda>(calls, r). ((page_size, offset) # calls, r))
                 (paginate_loop fuel get_logs page_size max_pages (all_logs @ logs)
                    (offset + length logs) (Suc page_count))))"

definition get_audit_logs_paginated ::
  "nat \<Rightarrow> (int \<Rightarrow> nat \<Rightarrow> py_exn + 'e list) \<Rightarrow> int \<Rightarrow> int option
     \<Rightarrow> ((int \<times> nat) list \<times> (py_exn + 'e list)) option" where
  "get_audit_logs_paginated fuel get_logs page_size max_pages =
     paginate_loop fuel get_logs page_size max_pages [] 0 0"

text \<open>
  \<open>get_audit_logs_paginated\<close> as the client runs it: its pages come from
  \<open>get_audit_logs\<close>.
\<close>

definition client_pages ::
  "signing_lib \<Rightarrow> string \<Rightarrow> (int \<Rightarrow> string)
     \<Rightarrow> (string \<Rightarrow> (string \<times> param_value) list \<Rightarrow> (string \<times> string) list \<Rightarrow> http_outcome)
     \<Rightarrow> crusoe_config \<Rightarrow> int option \<Rightarrow> int option \<Rightarrow> int \<Rightarrow> nat
     \<Rightarrow> py_exn + json list" where
  "client_pages lib now_str isoformat session_get cfg start_time end_time limit offset =
     page_of_logs
       (fst (get_audit_logs lib now_str isoformat session_get cfg start_time end_time
               (Some limit) (Some (int offset))))"

section \<open>main.py\<close>

text \<open>
  \<open>LogForwarder.forward_logs\<close>: fetch, filter, send, commit.  The result comes with the
  deduplicator and the state file as the call leaves them; \<open>None\<close> says that the pagination
  did not end within the bound.  \<open>mark_time\<close> is the clock reading of
  \<open>mark_events_as_sent\<close>.  The three handlers log the exception and raise it again.
\<close>

definition forward_logs ::
  "nat \<Rightarrow> (int \<Rightarrow> nat \<Rightarrow> py_exn + 'v event list) \<Rightarrow> (string \<Rightarrow> string) \<Rightarrow> ('v \<Rightarrow> string)
     \<Rightarrow> (nat \<Rightarrow> real) \<Rightarrow> (nat \<Rightarrow> 'v event list \<Rightarrow> py_exn + bool) \<Rightarrow> real \<Rightarrow> bool \<Rightarrow> string
     \<Rightarrow> int \<Rightarrow> event_deduplicator option \<Rightarrow> state_file \<Rightarrow> bool
     \<Rightarrow> ((py_exn + int) \<times> event_deduplicator option \<times> state_file) option" where
  "forward_logs fuel get_logs sha256_hex py_str clock send mark_time write_ok now_iso
     batch_size deduplicator file dry_run =
     (case get_audit_logs_paginated fuel get_logs batch_size None of
        None \<Rightarrow> None
      | Some (calls, Inl e) \<Rightarrow> Some (Inl e, deduplicator, file)
      | Some (calls, Inr fetched) \<Rightarrow>
          if fetched = [] then Some (Inr 0, deduplicator, file)
          else
            (case (case deduplicator of
                     None \<Rightarrow> (fetched, None)
                   | Some d \<Rightarrow>
                       (case filter_duplicates sha256_hex py_str clock d fetched of
                          (unique, d') \<Rightarrow> (unique, Some d'))) of
               (logs, deduplicator') \<Rightarrow>
                 if logs = [] then Some (Inr 0, deduplicator', file)
                 else if dry_run then Some (Inr (int (length logs)), deduplicator', file)
                 else
                   (case send_events_batch send logs batch_size of
                      Inl e \<Rightarrow> Some (Inl e, deduplicator', file)
                    | Inr (sent_count, successfully_sent_events) \<Rightarrow>
                        (case deduplicator' of
                           None \<Rightarrow> Some (Inr sent_count, None, file)
                         | Some d' \<Rightarrow>
                             if successfully_sent_events \<noteq> []
                             then
                               (case mark_events_as_sent sha256_hex py_str mark_time write_ok
                                       now_iso d' file successfully_sent_events of
                                  (d'', file') \<Rightarrow> Some (Inr sent_count, Some d'', file'))
                             else Some (Inr sent_count, Some d', file)))))"






section \<open>Notions used in the statements\<close>

text \<open>
  A fingerprint is recorded at time \<open>t\<close> when the dictionary holds it with an age below the
  tracking window.
\<close>

definition recorded :: "event_deduplicator \<Rightarrow> real \<Rightarrow> string \<Rightarrow> bool" where
  "recorded d t h =
     (\<exists>(h', timestamp) \<in> set (seen_events d).
        h' = h \<and> t - timestamp < real_of_int (tracking_window_seconds d))"

text \<open>
  Consecutive chunks of \<open>b\<close> elements, the last one possibly shorter.
\<close>

function chunks :: "nat \<Rightarrow> 'a list \<Rightarrow> 'a list list" where
  "chunks b xs = (if b = 0 \<or> xs = [] then [] else take b xs # chunks b (drop b xs))"
  by pat_completeness auto
termination
  by (relation "measure (\<lambda>(b, xs). length xs)") auto

declare chunks.simps [simp del]

text \<open>
  The chunks whose send returned, the chunks being numbered from \<open>first_num\<close>.
\<close>

definition accepted_chunks ::
  "(nat \<Rightarrow> 'e list \<Rightarrow> py_exn + bool) \<Rightarrow> nat \<Rightarrow> 'e list list \<Rightarrow> 'e list list" where
  "accepted_chunks send first_num cs =
     map snd (filter (\<lambda>(batch_num, c). \<not> isl (send batch_num c)) (enumerate first_num cs))"


text \<open>
  A send function whose only exception is \<open>SplunkHECError\<close>, as the documentation of
  \<open>send_events\<close> has it.
\<close>

definition only_hec_errors :: "(nat \<Rightarrow> 'e list \<Rightarrow> py_exn + bool) \<Rightarrow> bool" where
  "only_hec_errors send = (\<forall>batch_num batch e. send batch_num batch = Inl e \<longrightarrow> e = SplunkHECError)"



section \<open>Example inputs\<close>

text \<open>
  Stand-ins for the functions of the standard library in the examples: the digest is a
  function that keeps different strings apart, and \<open>str\<close> of a string is the string.
\<close>

definition example_digest :: "string \<Rightarrow> string" where
  "example_digest s = ''sha256:'' @ s"

definition str_of_string :: "string \<Rightarrow> string" where
  "str_of_string s = s"

definition event_a :: "string event" where
  "event_a = [''start_time'' \<mapsto> ''2024-05-01T10:00:00Z'', ''actor_id'' \<mapsto> ''alice'',
              ''action'' \<mapsto> ''vm.create'', ''note'' \<mapsto> ''first copy'']"

definition event_a_again :: "string event" where
  "event_a_again = [''start_time'' \<mapsto> ''2024-05-01T10:00:00Z'', ''actor_id'' \<mapsto> ''alice'',
                    ''action'' \<mapsto> ''vm.create'', ''target_id'' \<mapsto> [],
                    ''note'' \<mapsto> ''second copy'']"

definition event_b :: "string event" where
  "event_b = [''start_time'' \<mapsto> ''2024-05-01T10:05:00Z'', ''actor_id'' \<mapsto> ''bob'',
              ''action'' \<mapsto> ''vm.delete'']"

definition steady_clock :: "nat \<Rightarrow> real" where
  "steady_clock k = 1700000400"

definition example_store :: event_deduplicator where
  "example_store =
     \<lparr>tracking_window_seconds = 390, enabled = True,
      seen_events = [(generate_event_hash example_digest str_of_string event_a, 1700000100)]\<rparr>"

definition always_accepts :: "nat \<Rightarrow> 'e list \<Rightarrow> py_exn + bool" where
  "always_accepts batch_num batch = Inr True"

definition second_fails :: "nat \<Rightarrow> 'e list \<Rightarrow> py_exn + bool" where
  "second_fails batch_num batch = (if batch_num = 2 then Inl SplunkHECError else Inr True)"

definition first_raises_attribute_error :: "nat \<Rightarrow> 'e list \<Rightarrow> py_exn + bool" where
  "first_raises_attribute_error batch_num batch =
     (if batch_num = 1 then Inl AttributeError else Inr True)"

definition empty_store :: event_deduplicator where
  "empty_store = \<lparr>tracking_window_seconds = 390, enabled = True, seen_events = []\<rparr>"

text \<open>A source that has two events, which differ in a field outside the identity.\<close>

definition two_copies_page :: "int \<Rightarrow> nat \<Rightarrow> py_exn + string event list" where
  "two_copies_page limit offset = (if offset = 0 then Inr [event_a, event_a_again] else Inr [])"

text \<open>A stand-in for \<open>float\<close> on strings: it reads one string and rejects the others.\<close>

definition example_float :: "string \<Rightarrow> real option" where
  "example_float s = (if s = ''1700000100.5'' then Some 1700000100.5 else None)"

definition corrupt_state_document :: json where
  "corrupt_state_document =
     JObj [(''seen_events'', JObj [(''3f2a'', JNum 1700000100), (''9c41'', JStr ''yesterday'')]),
           (''tracking_window_seconds'', JNum 390)]"

definition valid_state_document :: json where
  "valid_state_document =
     JObj [(''seen_events'', JObj [(''3f2a'', JStr ''1700000100.5''), (''9c41'', JNum 1600000000)]),
           (''last_updated'', JStr ''2023-11-14T22:15:00+00:00''),
           (''tracking_window_seconds'', JNum 390)]"






text \<open>
  Stand-ins for the library of the signature.  The decoder rejects a string whose number of
  data characters is one more than a multiple of four, as every base64 decoder does; what
  the other strings decode to plays no part.
\<close>

definition example_decode :: "string \<Rightarrow> string option" where
  "example_decode s =
     (if length (filter (\<lambda>c. c \<noteq> CHR ''='') s) mod 4 = 1 then None else Some s)"

definition example_lib :: signing_lib where
  "example_lib =
     \<lparr>urlparse_path = drop 27,
      urlencode = (\<lambda>params. join ''&'' (map fst params)),
      urlsafe_b64decode = example_decode,
      hmac_sha256 = (\<lambda>key msg. key @ msg),
      urlsafe_b64encode = (\<lambda>digest. digest)\<rparr>"

definition keyed_config :: crusoe_config where
  "keyed_config =
     \<lparr>api_token = None, access_key_id = Some ''AKIDEXAMPLE'',
      secret_access_key = Some ''c2VjcmV0a'',
      base_url = ''https://api.crusoecloud.com/v1alpha5'', organization_id = ''org-1''\<rparr>"

definition token_config :: crusoe_config where
  "token_config =
     \<lparr>api_token = Some ''token-1'', access_key_id = None, secret_access_key = None,
      base_url = ''https://api.crusoecloud.com/v1alpha5'', organization_id = ''org-1''\<rparr>"

definition example_isoformat :: "int \<Rightarrow> string" where
  "example_isoformat t = ''2024-05-01T10:00:00+00:00''"

definition session_unreachable ::
  "string \<Rightarrow> (string \<times> param_value) list \<Rightarrow> (string \<times> string) list \<Rightarrow> http_outcome" where
  "session_unreachable url params headers = Request_failed"





section \<open>Fingerprints depend on the identity fields only\<close>

lemma key_fields_eq_iff:
  "key_fields py_str e1 = key_fields py_str e2 \<longleftrightarrow>
   (\<forall>name \<in> set identity_fields. field_str py_str e1 name = field_str py_str e2 name)"
  by (simp add: key_fields_def identity_fields_def)

lemma hash_eq_if_identity_eq:
  "\<forall>name \<in> set identity_fields. field_str py_str e1 name = field_str py_str e2 name \<Longrightarrow>
   generate_event_hash sha py_str e1 = generate_event_hash sha py_str e2"
  using key_fields_eq_iff[of py_str e1 e2] by (simp add: generate_event_hash_def)

lemma key_fields_restrict:
  "key_fields py_str (e |` set identity_fields) = key_fields py_str e"
  by (simp add: key_fields_def field_str_def identity_fields_def restrict_map_def)

section \<open>The duplicate filter\<close>

lemma cleanup_fields [simp]:
  "enabled (cleanup_old_entries t d) = enabled d"
  "tracking_window_seconds (cleanup_old_entries t d) = tracking_window_seconds d"
  by (simp_all add: cleanup_old_entries_def Let_def)

lemma cleanup_seen:
  "enabled d \<Longrightarrow> seen_events (cleanup_old_entries t d) =
     filter (\<lambda>(h, ts). t - ts < real_of_int (tracking_window_seconds d)) (seen_events d)"
  by (auto simp: cleanup_old_entries_def Let_def intro!: filter_cong)

lemma cleanup_subset: "set (seen_events (cleanup_old_entries t d)) \<subseteq> set (seen_events d)"
  by (auto simp: cleanup_old_entries_def Let_def)

lemma is_duplicate_enabled:
  "enabled d \<Longrightarrow> is_duplicate sha py_str t d e =
     (recorded d t (generate_event_hash sha py_str e), cleanup_old_entries t d)"
  by (force simp: is_duplicate_def Let_def recorded_def dict_contains_def cleanup_seen)

lemma recorded_cleanup:
  "t \<le> t' \<Longrightarrow> recorded (cleanup_old_entries t d) t' h = recorded d t' h"
  by (cases "enabled d") (auto simp: recorded_def cleanup_seen, auto simp: cleanup_old_entries_def)

lemma filter_loop_fst:
  assumes mono: "\<And>i j. i \<le> j \<Longrightarrow> clock i \<le> clock j"
  shows "enabled d \<Longrightarrow> fst (filter_loop sha py_str clock k d acc es) =
     acc @ map snd (filter (\<lambda>(j, e). \<not> recorded d (clock j) (generate_event_hash sha py_str e))
                      (enumerate k es))"
proof (induction es arbitrary: k d acc)
  case Nil
  then show ?case by simp
next
  case (Cons e es)
  let ?d' = "cleanup_old_entries (clock k) d"
  have en: "enabled ?d'" using Cons.prems by simp
  have eq: "filter (\<lambda>(j, e). \<not> recorded ?d' (clock j) (generate_event_hash sha py_str e))
                (enumerate (Suc k) es) =
            filter (\<lambda>(j, e). \<not> recorded d (clock j) (generate_event_hash sha py_str e))
                (enumerate (Suc k) es)"
  proof (rule filter_cong[OF refl])
    fix x assume "x \<in> set (enumerate (Suc k) es)"
    then have "Suc k \<le> fst x" by (simp add: in_set_enumerate_eq)
    then obtain j e' where x: "x = (j, e')" and "Suc k \<le> j"
      by (cases x) auto
    then have "clock k \<le> clock j" using mono by simp
    then show "(case x of (j, e) \<Rightarrow> \<not> recorded ?d' (clock j) (generate_event_hash sha py_str e))
             = (case x of (j, e) \<Rightarrow> \<not> recorded d (clock j) (generate_event_hash sha py_str e))"
      using x by (simp add: recorded_cleanup)
  qed
  show ?case
    using Cons.prems Cons.IH[OF en] by (simp add: is_duplicate_enabled eq)
qed

lemma filter_loop_snd:
  "enabled d \<Longrightarrow>
   enabled (snd (filter_loop sha py_str clock k d acc es)) \<and>
   tracking_window_seconds (snd (filter_loop sha py_str clock k d acc es))
     = tracking_window_seconds d \<and>
   set (seen_events (snd (filter_loop sha py_str clock k d acc es))) \<subseteq> set (seen_events d) \<and>
   (\<forall>t h. (\<forall>j. k \<le> j \<and> j < k + length es \<longrightarrow> clock j \<le> t) \<longrightarrow>
      recorded (snd (filter_loop sha py_str clock k d acc es)) t h = recorded d t h)"
proof (induction es arbitrary: k d acc)
  case Nil
  then show ?case by simp
next
  case (Cons e es)
  let ?d' = "cleanup_old_entries (clock k) d"
  let ?acc' = "if \<not> recorded d (clock k) (generate_event_hash sha py_str e)
               then acc @ [e] else acc"
  let ?r = "snd (filter_loop sha py_str clock (Suc k) ?d' ?acc' es)"
  have en: "enabled ?d'" using Cons.prems by simp
  have step: "snd (filter_loop sha py_str clock k d acc (e # es)) = ?r"
    using Cons.prems by (simp add: is_duplicate_enabled)
  note IH = Cons.IH[OF en, of "Suc k" ?acc']
  have a: "enabled ?r" and b: "tracking_window_seconds ?r = tracking_window_seconds d"
    using IH by simp_all
  have c: "set (seen_events ?r) \<subseteq> set (seen_events d)"
    using IH cleanup_subset[of "clock k" d] by blast
  have d: "recorded ?r t h = recorded d t h"
    if t: "\<forall>j. k \<le> j \<and> j < k + length (e # es) \<longrightarrow> clock j \<le> t" for t h
  proof -
    have "\<forall>j. Suc k \<le> j \<and> j < Suc k + length es \<longrightarrow> clock j \<le> t" using t by simp
    then have "recorded ?r t h = recorded ?d' t h" using IH by blast
    moreover have "clock k \<le> t" using t by simp
    ultimately show ?thesis by (simp add: recorded_cleanup)
  qed
  show ?case unfolding step using a b c d by blast
qed

lemma filter_loop_kept_unrecorded:
  "enabled d \<Longrightarrow>
   \<forall>e \<in> set acc. \<not> dict_contains (seen_events d) (generate_event_hash sha py_str e) \<Longrightarrow>
   \<forall>e \<in> set (fst (filter_loop sha py_str clock k d acc es)).
      \<not> dict_contains (seen_events (snd (filter_loop sha py_str clock k d acc es)))
          (generate_event_hash sha py_str e)"
proof (induction es arbitrary: k d acc)
  case Nil
  then show ?case by simp
next
  case (Cons e es)
  let ?d' = "cleanup_old_entries (clock k) d"
  let ?acc' = "if \<not> recorded d (clock k) (generate_event_hash sha py_str e)
               then acc @ [e] else acc"
  have en: "enabled ?d'" using Cons.prems by simp
  have sub: "set (seen_events ?d') \<subseteq> set (seen_events d)" by (rule cleanup_subset)
  have "\<not> dict_contains (seen_events ?d') (generate_event_hash sha py_str e)"
    if "\<not> recorded d (clock k) (generate_event_hash sha py_str e)"
    using that is_duplicate_enabled[OF Cons.prems(1), of sha py_str "clock k" e]
    by (simp add: is_duplicate_def Let_def Cons.prems(1))
  moreover have "\<forall>e \<in> set acc. \<not> dict_contains (seen_events ?d') (generate_event_hash sha py_str e)"
    using Cons.prems(2) sub by (auto simp: dict_contains_def)
  ultimately have acc': "\<forall>e \<in> set ?acc'. \<not> dict_contains (seen_events ?d') (generate_event_hash sha py_str e)"
    by auto
  show ?case
    using Cons.IH[OF en acc', of "Suc k"] Cons.prems(1)
    by (simp add: is_duplicate_enabled)
qed

lemma filter_loop_all_new:
  "enabled d \<Longrightarrow>
   \<forall>e \<in> set es. \<not> dict_contains (seen_events d) (generate_event_hash sha py_str e) \<Longrightarrow>
   fst (filter_loop sha py_str clock k d acc es) = acc @ es"
proof (induction es arbitrary: k d acc)
  case Nil
  then show ?case by simp
next
  case (Cons e es)
  let ?d' = "cleanup_old_entries (clock k) d"
  have en: "enabled ?d'" using Cons.prems by simp
  have sub: "set (seen_events ?d') \<subseteq> set (seen_events d)" by (rule cleanup_subset)
  have new: "\<forall>e \<in> set es. \<not> dict_contains (seen_events ?d') (generate_event_hash sha py_str e)"
    using Cons.prems(2) sub by (auto simp: dict_contains_def)
  have e: "\<not> dict_contains (seen_events ?d') (generate_event_hash sha py_str e)"
    using Cons.prems(2) sub by (auto simp: dict_contains_def)
  show ?case
    using Cons.IH[OF en new, of "Suc k"] Cons.prems(1) e
    by (simp add: is_duplicate_def Let_def)
qed

lemma recorded_later:
  "t \<le> t' \<Longrightarrow> recorded d t' h \<Longrightarrow> recorded d t h"
  unfolding recorded_def
proof -
  assume le: "t \<le> t'"
  assume "\<exists>(h', ts) \<in> set (seen_events d).
            h' = h \<and> t' - ts < real_of_int (tracking_window_seconds d)"
  then obtain ts where "(h, ts) \<in> set (seen_events d)"
    and "t' - ts < real_of_int (tracking_window_seconds d)" by auto
  moreover from this le have "t - ts < real_of_int (tracking_window_seconds d)" by simp
  ultimately show "\<exists>(h', ts) \<in> set (seen_events d).
            h' = h \<and> t - ts < real_of_int (tracking_window_seconds d)" by auto
qed

lemma recorded_dict_contains: "recorded d t h \<Longrightarrow> dict_contains (seen_events d) h"
  by (force simp: recorded_def dict_contains_def)

lemma filter_loop_keeps:
  "enabled d \<Longrightarrow>
   \<forall>e. Q e \<longrightarrow> \<not> dict_contains (seen_events d) (generate_event_hash sha py_str e) \<Longrightarrow>
   filter Q (fst (filter_loop sha py_str clock k d acc es)) = filter Q acc @ filter Q es"
proof (induction es arbitrary: k d acc)
  case Nil
  then show ?case by simp
next
  case (Cons e es)
  let ?d' = "cleanup_old_entries (clock k) d"
  have en: "enabled ?d'" using Cons.prems by simp
  have sub: "set (seen_events ?d') \<subseteq> set (seen_events d)" by (rule cleanup_subset)
  have new: "\<forall>e. Q e \<longrightarrow> \<not> dict_contains (seen_events ?d') (generate_event_hash sha py_str e)"
    using Cons.prems(2) sub by (auto simp: dict_contains_def)
  have e: "Q e \<Longrightarrow> \<not> recorded d (clock k) (generate_event_hash sha py_str e)"
    using Cons.prems(2) recorded_dict_contains by blast
  show ?case
    using Cons.IH[OF en new, of "Suc k"] Cons.prems(1) e
    by (simp add: is_duplicate_enabled)
qed

lemma filter_duplicates_keeps:
  assumes "\<forall>e. Q e \<longrightarrow> \<not> dict_contains (seen_events d) (generate_event_hash sha py_str e)"
  shows "filter Q (fst (filter_duplicates sha py_str clock d es)) = filter Q es"
  using assms filter_loop_keeps[of d Q sha py_str clock 0 "[]" es]
  by (simp add: filter_duplicates_def)

lemma filter_duplicates_store_shrinks:
  "set (seen_events (snd (filter_duplicates sha py_str clock d es))) \<subseteq> set (seen_events d)"
  using filter_loop_snd[of d sha py_str clock 0 "[]" es]
  by (simp add: filter_duplicates_def)

section \<open>Batches are the chunks of the input\<close>

lemma chunks_Nil [simp]: "chunks b [] = []"
  by (simp add: chunks.simps)

lemma chunks_step: "0 < b \<Longrightarrow> xs \<noteq> [] \<Longrightarrow> chunks b xs = take b xs # chunks b (drop b xs)"
  by (subst chunks.simps) simp

lemma concat_chunks: "0 < b \<Longrightarrow> concat (chunks b xs) = xs"
proof (induction b xs rule: chunks.induct)
  case (1 b xs)
  show ?case
  proof (cases "xs = []")
    case True
    then show ?thesis by simp
  next
    case False
    with 1 show ?thesis by (simp add: chunks_step)
  qed
qed

lemma chunks_lengths:
  "0 < b \<Longrightarrow> c \<in> set (chunks b xs) \<Longrightarrow> 0 < length c \<and> length c \<le> b"
proof (induction b xs rule: chunks.induct)
  case (1 b xs)
  show ?case
  proof (cases "xs = []")
    case True
    with 1 show ?thesis by simp
  next
    case False
    with 1 show ?thesis by (auto simp: chunks_step)
  qed
qed

lemma chunks_butlast_full:
  "0 < b \<Longrightarrow> c \<in> set (butlast (chunks b xs)) \<Longrightarrow> length c = b"
proof (induction b xs rule: chunks.induct)
  case (1 b xs)
  show ?case
  proof (cases "xs = []")
    case True
    with 1 show ?thesis by simp
  next
    case False
    show ?thesis
    proof (cases "drop b xs = []")
      case True
      with 1 False show ?thesis by (simp add: chunks_step)
    next
      case d: False
      then have "b < length xs" by simp
      moreover have "chunks b (drop b xs) \<noteq> []" using d "1.prems"(1) by (simp add: chunks_step)
      ultimately show ?thesis using 1 False by (auto simp: chunks_step)
    qed
  qed
qed

lemma py_range_step:
  assumes "0 < b" "xs \<noteq> []"
  shows "py_range (length xs) (int b) = 0 # map (\<lambda>i. i + b) (py_range (length (drop b xs)) (int b))"
proof -
  have n: "0 < length xs" using assms by simp
  have cnt: "(length xs + b - 1) div b = Suc ((length xs - b + b - 1) div b)"
  proof (cases "b \<le> length xs")
    case True
    define r where "r = length xs - b + b - 1"
    have e: "length xs + b - 1 = r + b" using True assms(1) by (simp add: r_def)
    have "(r + b) div b = r div b + 1" using assms(1) by simp
    then show ?thesis unfolding e r_def by simp
  next
    case False
    define r where "r = length xs - 1"
    have e: "length xs + b - 1 = r + b" using n unfolding r_def by linarith
    have l: "r < b" using False unfolding r_def by linarith
    have z: "length xs - b + b - 1 = b - 1" using False by simp
    have "(r + b) div b = Suc (r div b)" using assms(1) by simp
    moreover have "r div b = 0" using l by simp
    moreover have "(b - 1) div b = 0" using assms(1) by simp
    ultimately show ?thesis unfolding z e by simp
  qed
  let ?m = "(length (drop b xs) + b - 1) div b"
  have "py_range (length xs) (int b) = map (\<lambda>k. k * b) [0 ..< Suc ?m]"
    using assms(1) cnt by (simp add: py_range_def del: upt_Suc)
  also have "[0 ..< Suc ?m] = 0 # map Suc [0 ..< ?m]"
    by (simp only: upt_conv_Cons[OF zero_less_Suc] map_Suc_upt)
  also have "map (\<lambda>k. k * b) (0 # map Suc [0 ..< ?m])
               = 0 # map (\<lambda>i. i + b) (map (\<lambda>k. k * b) [0 ..< ?m])"
    by (simp add: comp_def)
  also have "map (\<lambda>k. k * b) [0 ..< ?m] = py_range (length (drop b xs)) (int b)"
    using assms(1) by (simp add: py_range_def)
  finally show ?thesis .
qed


lemma accepted_chunks_Cons:
  "accepted_chunks send n (c # cs) =
     (if isl (send n c) then [] else [c]) @ accepted_chunks send (Suc n) cs"
  by (simp add: accepted_chunks_def)

lemma batch_loop_chunks:
  assumes hec: "\<And>k c e. send k c = Inl e \<Longrightarrow> e = SplunkHECError"
  shows "0 < b \<Longrightarrow> xs = drop (j * b) es \<Longrightarrow>
     batch_loop send es b (map (\<lambda>i. i + j * b) (py_range (length xs) (int b))) tot acc =
       Inr (tot + int (length (concat (accepted_chunks send (Suc j) (chunks b xs)))),
            acc @ concat (accepted_chunks send (Suc j) (chunks b xs)))"
proof (induction b xs arbitrary: j tot acc rule: chunks.induct)
  case (1 b xs)
  show ?case
  proof (cases "xs = []")
    case True
    then show ?thesis using "1.prems" by (simp add: py_range_def accepted_chunks_def)
  next
    case False
    have b0: "b \<noteq> 0" using "1.prems" by simp
    have dr: "drop b xs = drop (Suc j * b) es"
      using "1.prems"(2) by (simp add: add.commute)
    have rng: "map (\<lambda>i. i + j * b) (py_range (length xs) (int b)) =
               j * b # map (\<lambda>i. i + Suc j * b) (py_range (length (drop b xs)) (int b))"
      using py_range_step[OF "1.prems"(1) False] by (simp add: comp_def add.assoc add.commute)
    have batch: "take b (drop (j * b) es) = take b xs" using "1.prems"(2) by simp
    have num: "j * b div b + 1 = Suc j" using "1.prems"(1) by simp
    note IH = "1.IH"[OF _ "1.prems"(1) dr]
    show ?thesis
    proof (cases "send (Suc j) (take b xs)")
      case (Inl e)
      then have e: "e = SplunkHECError" by (rule hec)
      show ?thesis
        unfolding rng chunks_step[OF "1.prems"(1) False]
        using Inl e IH[of tot acc] b0 False
        by (simp add: batch num accepted_chunks_Cons)
    next
      case (Inr ok)
      show ?thesis
        unfolding rng chunks_step[OF "1.prems"(1) False]
        using Inr IH[of "tot + int (length (take b xs))" "acc @ take b xs"] b0 False
        by (simp add: batch num accepted_chunks_Cons)
    qed
  qed
qed

lemma send_events_batch_positive:
  assumes hec: "\<And>k c e. send k c = Inl e \<Longrightarrow> e = SplunkHECError" and b: "0 < batch_size"
  shows "send_events_batch send es batch_size =
     Inr (int (length (concat (accepted_chunks send 1 (chunks (nat batch_size) es)))),
          concat (accepted_chunks send 1 (chunks (nat batch_size) es)))"
proof (cases "es = []")
  case True
  then show ?thesis by (simp add: send_events_batch_def accepted_chunks_def)
next
  case False
  have "0 < nat batch_size" using b by simp
  from batch_loop_chunks[OF hec this, where xs = es and j = 0 and es = es and tot = 0
      and acc = "[]"] b False
  show ?thesis by (simp add: send_events_batch_def)
qed

section \<open>Claims\<close>

subsection \<open>The fingerprint\<close>

text \<open>
  C4.  The fingerprint of an event is a function of exactly its six identity fields
  \<open>start_time\<close>, \<open>actor_id\<close>, \<open>action\<close>, \<open>target_type\<close>, \<open>target_id\<close> and
  \<open>organization_id\<close>, a missing field being read as the empty string: two events that agree
  on these six values have the same fingerprint whatever their other fields are, dropping
  every other field leaves the fingerprint as it is, and the fingerprint is the SHA-256 digest
  of the six values joined in that order with the separator \<open>|\<close>.
\<close>

theorem generate_event_hash_identity_fields:
  assumes "\<forall>name \<in> set identity_fields. field_str py_str e1 name = field_str py_str e2 name"
  shows "generate_event_hash sha256_hex py_str e1 = generate_event_hash sha256_hex py_str e2
       \<and> generate_event_hash sha256_hex py_str (e1 |` set identity_fields)
           = generate_event_hash sha256_hex py_str e1
       \<and> generate_event_hash sha256_hex py_str e1
           = sha256_hex (join ''|'' (map (field_str py_str e1) identity_fields))
       \<and> join ''|'' (map (field_str py_str e1) identity_fields)
           = field_str py_str e1 ''start_time'' @ ''|'' @ field_str py_str e1 ''actor_id'' @ ''|''
             @ field_str py_str e1 ''action'' @ ''|'' @ field_str py_str e1 ''target_type'' @ ''|''
             @ field_str py_str e1 ''target_id'' @ ''|'' @ field_str py_str e1 ''organization_id''"
proof -
  have "generate_event_hash sha256_hex py_str e1 = generate_event_hash sha256_hex py_str e2"
    using assms by (rule hash_eq_if_identity_eq)
  moreover have "generate_event_hash sha256_hex py_str (e1 |` set identity_fields)
                   = generate_event_hash sha256_hex py_str e1"
    by (simp add: generate_event_hash_def key_fields_restrict)
  moreover have "map (field_str py_str e1) identity_fields = key_fields py_str e1"
    by (simp add: key_fields_def identity_fields_def)
  then have "generate_event_hash sha256_hex py_str e1
               = sha256_hex (join ''|'' (map (field_str py_str e1) identity_fields))"
    by (simp add: generate_event_hash_def)
  moreover have "join ''|'' (map (field_str py_str e1) identity_fields)
           = field_str py_str e1 ''start_time'' @ ''|'' @ field_str py_str e1 ''actor_id'' @ ''|''
             @ field_str py_str e1 ''action'' @ ''|'' @ field_str py_str e1 ''target_type'' @ ''|''
             @ field_str py_str e1 ''target_id'' @ ''|'' @ field_str py_str e1 ''organization_id''"
    by (simp add: identity_fields_def)
  ultimately show ?thesis by blast
qed

text \<open>
  The two example events differ in \<open>note\<close>, and one has an empty \<open>target_id\<close> where the
  other has none.
\<close>

theorem generate_event_hash_identity_fields_witness:
  "map (field_str str_of_string event_a) identity_fields
     = map (field_str str_of_string event_a_again) identity_fields
   \<and> event_a \<noteq> event_a_again
   \<and> generate_event_hash example_digest str_of_string event_a
       = generate_event_hash example_digest str_of_string event_a_again
   \<and> generate_event_hash example_digest str_of_string event_a
       = ''sha256:2024-05-01T10:00:00Z|alice|vm.create|||''"
proof -
  have h: "\<forall>name \<in> set identity_fields.
      field_str str_of_string event_a name = field_str str_of_string event_a_again name"
    by (simp add: identity_fields_def field_str_def event_a_def event_a_again_def
        str_of_string_def)
  have ne: "event_a \<noteq> event_a_again"
  proof
    assume "event_a = event_a_again"
    then have "event_a ''note'' = event_a_again ''note''" by simp
    then show False by (simp add: event_a_def event_a_again_def)
  qed
  have v: "''sha256:2024-05-01T10:00:00Z|alice|vm.create|||''
             = example_digest (join ''|'' (map (field_str str_of_string event_a) identity_fields))"
    by (simp add: identity_fields_def field_str_def event_a_def example_digest_def
        str_of_string_def)
  note t = generate_event_hash_identity_fields[OF h, of example_digest]
  from t have a: "generate_event_hash example_digest str_of_string event_a
       = generate_event_hash example_digest str_of_string event_a_again" by blast
  from t have "generate_event_hash example_digest str_of_string event_a
       = example_digest (join ''|'' (map (field_str str_of_string event_a) identity_fields))"
    by blast
  with v have b: "generate_event_hash example_digest str_of_string event_a
       = ''sha256:2024-05-01T10:00:00Z|alice|vm.create|||''" by (simp only:)
  from h have m: "map (field_str str_of_string event_a) identity_fields
     = map (field_str str_of_string event_a_again) identity_fields" by simp
  from m ne a b show ?thesis by blast
qed

subsection \<open>Filtering duplicates\<close>

text \<open>
  C8.  For an enabled store and a clock that does not run backwards, \<open>filter_duplicates\<close>
  returns exactly the events whose fingerprint is not recorded when the event is checked, in
  their original order.  It has no effect on the recorded fingerprints: the store keeps its
  settings, gains no entry (the purge only drops entries that have expired), and at every later
  time the same fingerprints are recorded as before.  Hence it is idempotent: applied to its
  own output, on the store it leaves behind or on the store it started from, it returns that
  output unchanged.
\<close>

theorem filter_duplicates_reads_only:
  assumes "enabled d" and "mono clock"
  shows "(let r = filter_duplicates sha256_hex py_str clock d events;
              out = fst r; d' = snd r
          in out = map snd (filter (\<lambda>(k, e). \<not> recorded d (clock k)
                                                 (generate_event_hash sha256_hex py_str e))
                              (enumerate 0 events))
           \<and> enabled d' \<and> tracking_window_seconds d' = tracking_window_seconds d
           \<and> set (seen_events d') \<subseteq> set (seen_events d)
           \<and> (\<forall>t h. (\<forall>k < length events. clock k \<le> t) \<longrightarrow> recorded d' t h = recorded d t h)
           \<and> (\<forall>clock'. fst (filter_duplicates sha256_hex py_str clock' d' out) = out)
           \<and> (\<forall>clock'. mono clock' \<and> (\<forall>i j. clock i \<le> clock' j)
                  \<longrightarrow> fst (filter_duplicates sha256_hex py_str clock' d out) = out))"
proof -
  let ?h = "generate_event_hash sha256_hex py_str"
  let ?r = "filter_loop sha256_hex py_str clock 0 d [] events"
  let ?out = "fst ?r" and ?d' = "snd ?r"
  have r: "filter_duplicates sha256_hex py_str clock d events = ?r"
    using assms(1) by (simp add: filter_duplicates_def)
  have mono: "\<And>i j. i \<le> j \<Longrightarrow> clock i \<le> clock j"
    using assms(2) by (rule monoD)
  have out: "?out = map snd (filter (\<lambda>(k, e). \<not> recorded d (clock k) (?h e))
                               (enumerate 0 events))"
    using filter_loop_fst[of clock d sha256_hex py_str 0 "[]" events] mono assms(1) by simp
  note st = filter_loop_snd[OF assms(1), of sha256_hex py_str clock 0 "[]" events]
  have en: "enabled ?d'" and tw: "tracking_window_seconds ?d' = tracking_window_seconds d"
    and sub: "set (seen_events ?d') \<subseteq> set (seen_events d)"
    using st by simp_all
  have same: "\<forall>t h. (\<forall>k < length events. clock k \<le> t) \<longrightarrow> recorded ?d' t h = recorded d t h"
    using st by simp
  have new: "\<forall>e \<in> set ?out. \<not> dict_contains (seen_events ?d') (?h e)"
    using filter_loop_kept_unrecorded[OF assms(1), of "[]" sha256_hex py_str clock 0 events]
    by simp
  have idem1: "fst (filter_duplicates sha256_hex py_str clock' ?d' ?out) = ?out" for clock'
    using filter_loop_all_new[OF en new, of clock' 0 "[]"] en
    by (simp add: filter_duplicates_def)
  have idem2: "fst (filter_duplicates sha256_hex py_str clock' d ?out) = ?out"
    if m: "mono clock'" and later: "\<forall>i j. clock i \<le> clock' j" for clock'
  proof -
    have mono': "\<And>i j. i \<le> j \<Longrightarrow> clock' i \<le> clock' j" using m by (rule monoD)
    have "fst (filter_duplicates sha256_hex py_str clock' d ?out)
            = map snd (filter (\<lambda>(j, e). \<not> recorded d (clock' j) (?h e)) (enumerate 0 ?out))"
      using filter_loop_fst[of clock' d sha256_hex py_str 0 "[]" ?out] mono' assms(1)
      by (simp add: filter_duplicates_def)
    moreover have "\<forall>x \<in> set (enumerate 0 ?out). case x of (j, e) \<Rightarrow> \<not> recorded d (clock' j) (?h e)"
    proof
      fix x assume x: "x \<in> set (enumerate 0 ?out)"
      obtain j e where xe: "x = (j, e)" by (cases x)
      with x have "e \<in> set ?out" by (auto simp: in_set_enumerate_eq)
      then obtain k where "\<not> recorded d (clock k) (?h e)" unfolding out by auto
      moreover have "clock k \<le> clock' j" using later by simp
      ultimately have "\<not> recorded d (clock' j) (?h e)" using recorded_later by blast
      then show "case x of (j, e) \<Rightarrow> \<not> recorded d (clock' j) (?h e)" using xe by simp
    qed
    then have "filter (\<lambda>(j, e). \<not> recorded d (clock' j) (?h e)) (enumerate 0 ?out)
                 = enumerate 0 ?out"
      by (simp add: filter_id_conv)
    ultimately show ?thesis by simp
  qed
  show ?thesis
    unfolding Let_def r using out en tw sub same idem1 idem2 by blast
qed

text \<open>
  The example store holds the fingerprint of \<open>event_a\<close>, marked 300 seconds before the
  check, with a window of 390 seconds.
\<close>

theorem filter_duplicates_reads_only_witness:
  "enabled example_store \<and> mono steady_clock
   \<and> fst (filter_duplicates example_digest str_of_string steady_clock example_store
            [event_a_again, event_b, event_a]) = [event_b]
   \<and> fst (filter_duplicates example_digest str_of_string steady_clock example_store [event_b])
       = [event_b]"
proof -
  have en: "enabled example_store" by (simp add: example_store_def)
  have m: "mono steady_clock" by (simp add: mono_def steady_clock_def)
  have ha: "generate_event_hash example_digest str_of_string event_a_again
              = generate_event_hash example_digest str_of_string event_a"
    by (simp add: generate_event_hash_def key_fields_def field_str_def event_a_def
        event_a_again_def str_of_string_def)
  have hb: "generate_event_hash example_digest str_of_string event_b
              \<noteq> generate_event_hash example_digest str_of_string event_a"
    by (simp add: generate_event_hash_def key_fields_def field_str_def event_a_def
        event_b_def str_of_string_def example_digest_def)
  have ra: "recorded example_store (steady_clock k)
              (generate_event_hash example_digest str_of_string event_a)" for k
    by (simp add: recorded_def example_store_def steady_clock_def)
  have rb: "\<not> recorded example_store (steady_clock k)
              (generate_event_hash example_digest str_of_string event_b)" for k
    using hb by (simp add: recorded_def example_store_def)
  note t = filter_duplicates_reads_only[OF en m, of example_digest str_of_string
      "[event_a_again, event_b, event_a]", unfolded Let_def]
  from t have "fst (filter_duplicates example_digest str_of_string steady_clock example_store
            [event_a_again, event_b, event_a])
      = map snd (filter (\<lambda>(k, e). \<not> recorded example_store (steady_clock k)
                                       (generate_event_hash example_digest str_of_string e))
                   (enumerate 0 [event_a_again, event_b, event_a]))"
    by blast
  then have first: "fst (filter_duplicates example_digest str_of_string steady_clock
            example_store [event_a_again, event_b, event_a]) = [event_b]"
    by (simp add: ha ra rb)
  from t have "\<forall>clock'. mono clock' \<and> (\<forall>i j. steady_clock i \<le> clock' j) \<longrightarrow>
      fst (filter_duplicates example_digest str_of_string clock' example_store
            (fst (filter_duplicates example_digest str_of_string steady_clock example_store
                   [event_a_again, event_b, event_a])))
      = fst (filter_duplicates example_digest str_of_string steady_clock example_store
                   [event_a_again, event_b, event_a])"
    by blast
  then have "mono steady_clock \<and> (\<forall>i j. steady_clock i \<le> steady_clock j) \<longrightarrow>
      fst (filter_duplicates example_digest str_of_string steady_clock example_store [event_b])
        = [event_b]"
    unfolding first by (rule spec)
  moreover have "\<forall>i j. steady_clock i \<le> steady_clock j" by (simp add: steady_clock_def)
  moreover note first
  ultimately show ?thesis using en m by blast
qed

subsection \<open>Sending in batches\<close>

text \<open>
  C1, as amended.  For every list of events, every batch size of at least one and every send
  function that returns or raises \<open>SplunkHECError\<close>, \<open>send_events_batch\<close> works on the
  consecutive chunks of \<open>batch_size\<close> events (each chunk is non-empty, every chunk but the
  last has \<open>batch_size\<close> events, and together they are the input); a chunk whose send raises
  is skipped and the later chunks are still sent; the returned events are the chunks whose
  send returned, in order, and the returned count is their number.
\<close>

theorem send_events_batch_partial_success:
  assumes "0 < batch_size" and "only_hec_errors send"
  shows "(let b = nat batch_size;
              cs = chunks b log_entries;
              accepted = concat (accepted_chunks send 1 cs)
          in concat cs = log_entries
           \<and> (\<forall>c \<in> set cs. 0 < length c \<and> length c \<le> b)
           \<and> (\<forall>c \<in> set (butlast cs). length c = b)
           \<and> send_events_batch send log_entries batch_size
               = Inr (int (length accepted), accepted))"
proof -
  have b: "0 < nat batch_size" using assms(1) by simp
  have hec: "\<And>k c e. send k c = Inl e \<Longrightarrow> e = SplunkHECError"
    using assms(2) by (simp add: only_hec_errors_def)
  have f1: "concat (chunks (nat batch_size) log_entries) = log_entries"
    using b by (rule concat_chunks)
  have f2: "\<forall>c \<in> set (chunks (nat batch_size) log_entries).
                   0 < length c \<and> length c \<le> nat batch_size"
    using chunks_lengths[OF b] by blast
  have f3: "\<forall>c \<in> set (butlast (chunks (nat batch_size) log_entries)).
                   length c = nat batch_size"
    using chunks_butlast_full[OF b] by blast
  note f4 = send_events_batch_positive[of send batch_size log_entries, OF hec assms(1)]
  show ?thesis unfolding Let_def by (rule conjI[OF f1 conjI[OF f2 conjI[OF f3 f4]]])
qed

text \<open>
  The claim as stated fails for the batch size 0, where the call raises
  \<open>ZeroDivisionError\<close>, and for a send that raises another exception than
  \<open>SplunkHECError\<close>, which ends the whole call.
\<close>

theorem send_events_batch_counterexample:
  "send_events_batch always_accepts [event_a] 0 = Inl ZeroDivisionError
   \<and> send_events_batch first_raises_attribute_error [event_a, event_b] 1 = Inl AttributeError"
proof -
  have "py_range 2 1 = [0, 1]"
    by (simp add: py_range_def numeral_2_eq_2)
  then show ?thesis
    by (simp add: send_events_batch_def first_raises_attribute_error_def numeral_2_eq_2)
qed

text \<open>
  250 events with batch size 100: three chunks of 100, 100 and 50 events; when only the
  second chunk fails, 150 events are accepted, all but those of the second chunk.
\<close>

theorem send_events_batch_partial_success_witness:
  "(0::int) < 100 \<and> only_hec_errors (second_fails :: nat \<Rightarrow> nat list \<Rightarrow> py_exn + bool)
   \<and> chunks 100 [0 ..< 250] = [[0 ..< 100], [100 ..< 200], [200 ..< 250]]
   \<and> send_events_batch second_fails [0 ..< 250] 100 = Inr (150, [0 ..< 100] @ [200 ..< 250])"
proof -
  have p: "(0::int) < 100" by simp
  have h: "only_hec_errors (second_fails :: nat \<Rightarrow> nat list \<Rightarrow> py_exn + bool)"
    by (simp add: only_hec_errors_def second_fails_def)
  have c: "chunks 100 [0 ..< 250] = [[0 ..< 100], [100 ..< 200], [200 ..< 250]]"
    by (simp add: chunks_step del: upt_rec_numeral)
  have a: "accepted_chunks (second_fails :: nat \<Rightarrow> nat list \<Rightarrow> py_exn + bool) 1
             [[0 ..< 100], [100 ..< 200], [200 ..< 250]] = [[0 ..< 100], [200 ..< 250]]"
    by (simp add: accepted_chunks_def second_fails_def del: upt_rec_numeral)
  have n: "nat (100::int) = 100" by simp
  note t = send_events_batch_partial_success[OF p h, of "[0 ..< 250]", unfolded Let_def n c a]
  note t4 = t[THEN conjunct2, THEN conjunct2, THEN conjunct2]
  from t4 have "send_events_batch second_fails [0 ..< 250] 100
      = Inr (int (length (concat [[0 ..< 100], [200 ..< 250 :: nat]])),
             concat [[0 ..< 100], [200 ..< 250]])" .
  then have r: "send_events_batch second_fails [0 ..< 250] 100
          = Inr (150, [0 ..< 100] @ [200 ..< 250])"
    by (simp del: upt_rec_numeral)
  show ?thesis by (rule conjI[OF p conjI[OF h conjI[OF c r]]])
qed

lemma accepted_chunks_always: "accepted_chunks always_accepts n cs = cs"
  by (simp add: accepted_chunks_def always_accepts_def)

lemma send_events_batch_always:
  "0 < batch_size \<Longrightarrow>
   send_events_batch always_accepts es batch_size = Inr (int (length es), es)"
  using send_events_batch_positive[of always_accepts batch_size es]
  by (simp add: always_accepts_def accepted_chunks_always concat_chunks)

lemma forward_logs_sends_filtered:
  assumes b: "0 < batch_size" and ne: "events \<noteq> []" and one: "out' \<noteq> []"
   and fetch: "get_audit_logs_paginated fuel get_logs batch_size None
                    = Some (calls, Inr events)"
   and r: "filter_duplicates sha256_hex py_str clock d events = (out', d')"
  shows "map_option fst
              (forward_logs fuel get_logs sha256_hex py_str clock always_accepts
                 mark_time write_ok now_iso batch_size (Some d) file False)
            = Some (Inr (int (length out')))"
  apply (simp only: forward_logs_def fetch option.case prod.case sum.case ne if_False r)
  apply (simp only: one if_False send_events_batch_always[OF b] sum.case prod.case option.case)
  apply (simp only: one not_False_eq_True if_True)
  apply (cases "mark_events_as_sent sha256_hex py_str mark_time write_ok now_iso d' file out'")
  apply (simp only: prod.case option.map fst_conv)
  done

text \<open>
  C10.  \<open>filter_duplicates\<close> never records a fingerprint, so it does not deduplicate within
  its input.  When the fingerprint of an event is not in the store, every occurrence of the
  event and of any event with the same identity fields is returned: of the input
  \<open>[e1, e2]\<close> both come back.  The store gains no entry, an event is dropped only if its
  fingerprint was in the store before the call, and in \<open>forward_logs\<close> the whole output is
  handed to \<open>send_events_batch\<close>: when every send is accepted, the count of forwarded events
  is the length of the output.
\<close>

theorem filter_duplicates_keeps_repeats:
  assumes "\<forall>name \<in> set identity_fields. field_str py_str e1 name = field_str py_str e2 name"
    and "\<not> dict_contains (seen_events d) (generate_event_hash sha256_hex py_str e1)"
  shows "(let r = filter_duplicates sha256_hex py_str clock d events; out = fst r
          in filter (\<lambda>e. e = e1 \<or> e = e2) out = filter (\<lambda>e. e = e1 \<or> e = e2) events
           \<and> set (seen_events (snd r)) \<subseteq> set (seen_events d)
           \<and> (\<forall>e \<in> set events. e \<notin> set out \<longrightarrow>
                  dict_contains (seen_events d) (generate_event_hash sha256_hex py_str e))
           \<and> (0 < batch_size \<and> e1 \<in> set events
                \<and> get_audit_logs_paginated fuel get_logs batch_size None
                    = Some (calls, Inr events)
                \<longrightarrow> map_option fst
                      (forward_logs fuel get_logs sha256_hex py_str clock always_accepts
                         mark_time write_ok now_iso batch_size (Some d) file False)
                    = Some (Inr (int (length out)))))
       \<and> fst (filter_duplicates sha256_hex py_str clock d [e1, e2]) = [e1, e2]"
proof -
  let ?h = "generate_event_hash sha256_hex py_str"
  let ?Q = "\<lambda>e. e = e1 \<or> e = e2"
  have heq: "?h e2 = ?h e1"
    using hash_eq_if_identity_eq[OF assms(1), of sha256_hex] by simp
  have Q: "\<forall>e. ?Q e \<longrightarrow> \<not> dict_contains (seen_events d) (?h e)"
    using assms(2) heq by auto
  have keep: "filter ?Q (fst (filter_duplicates sha256_hex py_str clock d es)) = filter ?Q es"
    for es
    using Q by (rule filter_duplicates_keeps)
  let ?out = "fst (filter_duplicates sha256_hex py_str clock d events)"
  have f1: "filter ?Q ?out = filter ?Q events" by (rule keep)
  have f2: "set (seen_events (snd (filter_duplicates sha256_hex py_str clock d events)))
              \<subseteq> set (seen_events d)"
    by (rule filter_duplicates_store_shrinks)
  have f3: "\<forall>e \<in> set events. e \<notin> set ?out \<longrightarrow> dict_contains (seen_events d) (?h e)"
  proof (intro ballI impI)
    fix e assume e: "e \<in> set events" and out: "e \<notin> set ?out"
    show "dict_contains (seen_events d) (?h e)"
    proof (rule ccontr)
      assume "\<not> dict_contains (seen_events d) (?h e)"
      then have "\<forall>x. x = e \<longrightarrow> \<not> dict_contains (seen_events d) (?h x)" by simp
      then have "filter (\<lambda>x. x = e) ?out = filter (\<lambda>x. x = e) events"
        by (rule filter_duplicates_keeps)
      moreover have "filter (\<lambda>x. x = e) events \<noteq> []"
        using e by (simp add: filter_empty_conv)
      ultimately have "filter (\<lambda>x. x = e) ?out \<noteq> []" by simp
      then show False using out by (simp add: filter_empty_conv)
    qed
  qed
  have f4: "map_option fst
              (forward_logs fuel get_logs sha256_hex py_str clock always_accepts
                 mark_time write_ok now_iso batch_size (Some d) file False)
            = Some (Inr (int (length ?out)))"
    if b: "0 < batch_size" and e1: "e1 \<in> set events"
      and fetch: "get_audit_logs_paginated fuel get_logs batch_size None
                    = Some (calls, Inr events)"
  proof -
    have ne: "events \<noteq> []" using e1 by auto
    have "e1 \<in> set (filter ?Q events)" using e1 by simp
    then have "e1 \<in> set (filter ?Q ?out)" using f1 by simp
    then have one: "?out \<noteq> []" by auto
    obtain out' d' where r: "filter_duplicates sha256_hex py_str clock d events = (out', d')"
      by (cases "filter_duplicates sha256_hex py_str clock d events")
    then have o: "?out = out'" by simp
    show ?thesis
      unfolding o using forward_logs_sends_filtered[OF b ne one[unfolded o] fetch r] .
  qed
  have f5: "fst (filter_duplicates sha256_hex py_str clock d [e1, e2]) = [e1, e2]"
  proof (cases "enabled d")
    case True
    have "\<forall>e \<in> set [e1, e2]. \<not> dict_contains (seen_events d) (?h e)"
      using assms(2) heq by simp
    from filter_loop_all_new[OF True this, of clock 0 "[]"] True
    show ?thesis by (simp add: filter_duplicates_def)
  next
    case False
    then show ?thesis by (simp add: filter_duplicates_def)
  qed
  have f4': "0 < batch_size \<and> e1 \<in> set events
                \<and> get_audit_logs_paginated fuel get_logs batch_size None
                    = Some (calls, Inr events)
                \<longrightarrow> map_option fst
                      (forward_logs fuel get_logs sha256_hex py_str clock always_accepts
                         mark_time write_ok now_iso batch_size (Some d) file False)
                    = Some (Inr (int (length ?out)))"
    using f4 by (intro impI) (elim conjE)
  show ?thesis
    unfolding Let_def
    by (rule conjI[OF conjI[OF f1 conjI[OF f2 conjI[OF f3 f4']]] f5])
qed

text \<open>
  An empty store and a source with two copies of an event: both are returned by the filter,
  and the cycle forwards two events.
\<close>

theorem filter_duplicates_keeps_repeats_witness:
  "map (field_str str_of_string event_a) identity_fields
     = map (field_str str_of_string event_a_again) identity_fields
   \<and> \<not> dict_contains (seen_events empty_store)
         (generate_event_hash example_digest str_of_string event_a)
   \<and> fst (filter_duplicates example_digest str_of_string steady_clock empty_store
            [event_a, event_a_again]) = [event_a, event_a_again]
   \<and> map_option fst
         (forward_logs 1 two_copies_page example_digest str_of_string steady_clock
            always_accepts 1700000400 True ''2023-11-14T22:20:00+00:00'' 100
            (Some empty_store) Absent False)
       = Some (Inr 2)"
proof -
  have h: "\<forall>name \<in> set identity_fields.
      field_str str_of_string event_a name = field_str str_of_string event_a_again name"
    by (simp add: identity_fields_def field_str_def event_a_def event_a_again_def
        str_of_string_def)
  have n: "\<not> dict_contains (seen_events empty_store)
         (generate_event_hash example_digest str_of_string event_a)"
    by (simp add: dict_contains_def empty_store_def)
  have fetch: "get_audit_logs_paginated 1 two_copies_page 100 None
                 = Some ([(100, 0)], Inr [event_a, event_a_again])"
    by (simp add: get_audit_logs_paginated_def two_copies_page_def cap_reached_def)
  note t = filter_duplicates_keeps_repeats[OF h n, of steady_clock "[event_a, event_a_again]"
      100 1 two_copies_page "[(100, 0)]" 1700000400 True "''2023-11-14T22:20:00+00:00''"
      Absent, unfolded Let_def]
  from t have both: "fst (filter_duplicates example_digest str_of_string steady_clock
      empty_store [event_a, event_a_again]) = [event_a, event_a_again]"
    by (rule conjunct2)
  have pre: "(0::int) < 100 \<and> event_a \<in> set [event_a, event_a_again]
     \<and> get_audit_logs_paginated 1 two_copies_page 100 None
          = Some ([(100, 0)], Inr [event_a, event_a_again])"
    using fetch by simp
  from t have "map_option fst
         (forward_logs 1 two_copies_page example_digest str_of_string steady_clock
            always_accepts 1700000400 True ''2023-11-14T22:20:00+00:00'' 100
            (Some empty_store) Absent False)
       = Some (Inr (int (length (fst (filter_duplicates example_digest str_of_string
            steady_clock empty_store [event_a, event_a_again])))))"
    using pre by blast
  then have sent: "map_option fst
         (forward_logs 1 two_copies_page example_digest str_of_string steady_clock
            always_accepts 1700000400 True ''2023-11-14T22:20:00+00:00'' 100
            (Some empty_store) Absent False)
       = Some (Inr 2)"
    unfolding both by simp
  from h have m: "map (field_str str_of_string event_a) identity_fields
     = map (field_str str_of_string event_a_again) identity_fields" by simp
  show ?thesis by (rule conjI[OF m conjI[OF n conjI[OF both sent]]])
qed

subsection \<open>Marking events as sent\<close>









subsection \<open>Loading the state file\<close>

lemma convert_timestamps_fails:
  "\<exists>(h, ts) \<in> set items. isl (py_float float_of_str ts) \<Longrightarrow>
   isl (convert_timestamps float_of_str items)"
proof (induction items)
  case Nil
  then show ?case by simp
next
  case (Cons x items)
  obtain h ts where x: "x = (h, ts)" by (cases x)
  show ?case
  proof (cases "isl (py_float float_of_str ts)")
    case True
    then show ?thesis using x by (auto split: sum.splits)
  next
    case False
    then have "\<exists>(h, ts) \<in> set items. isl (py_float float_of_str ts)"
      using Cons.prems x by auto
    then have "isl (convert_timestamps float_of_str items)" by (rule Cons.IH)
    then show ?thesis using x by (auto split: sum.splits)
  qed
qed

lemma load_state_total:
  "\<exists>d. load_state float_of_str now d0 file = Inr d
       \<and> tracking_window_seconds d = tracking_window_seconds d0 \<and> enabled d = enabled d0"
  by (auto simp: load_state_def load_state_try_def split: sum.splits state_file.splits)

lemma load_state_fresh_if_try_fails:
  "isl (load_state_try float_of_str now d0 file) \<Longrightarrow>
   load_state float_of_str now d0 file = Inr (if enabled d0 \<and> file \<noteq> Absent
                                               then d0\<lparr>seen_events := []\<rparr> else d0)"
  by (auto simp: load_state_def split: sum.splits)

text \<open>
  C9.  Whatever the state file holds, constructing the store returns a store and raises
  nothing.  If the file is absent, cannot be read, is no JSON document, is a document of
  another shape (no object, or \<open>seen_events\<close> no object), or holds a timestamp that \<open>float\<close>
  rejects, the store starts with no record.
\<close>

theorem load_state_never_raises:
  "(let fresh = \<lparr>tracking_window_seconds = window, enabled = en, seen_events = []\<rparr>;
        result = new_deduplicator float_of_str now window en file
    in (\<exists>d. result = Inr d \<and> tracking_window_seconds d = window \<and> enabled d = en)
     \<and> (file = Absent \<or> file = Unreadable \<or> file = Unparsable \<longrightarrow> result = Inr fresh)
     \<and> (\<forall>kvs items.
           file = Parsed (JObj kvs) \<and> map_of kvs ''seen_events'' = Some (JObj items)
           \<and> (\<exists>(h, ts) \<in> set items. isl (py_float float_of_str ts))
           \<longrightarrow> result = Inr fresh)
     \<and> (\<forall>data. file = Parsed data \<and> isl (json_items data) \<longrightarrow> result = Inr fresh)
     \<and> (\<forall>kvs seen.
           file = Parsed (JObj kvs) \<and> map_of kvs ''seen_events'' = Some seen
           \<and> isl (json_items seen)
           \<longrightarrow> result = Inr fresh))"
proof -
  let ?fresh = "\<lparr>tracking_window_seconds = window, enabled = en, seen_events = []\<rparr>"
  let ?result = "new_deduplicator float_of_str now window en file"
  have r: "?result = load_state float_of_str now ?fresh file"
    by (simp add: new_deduplicator_def)
  have f1: "\<exists>d. ?result = Inr d \<and> tracking_window_seconds d = window \<and> enabled d = en"
    unfolding r using load_state_total[of float_of_str now ?fresh "file"] by simp
  have fails: "?result = Inr ?fresh" if "isl (load_state_try float_of_str now ?fresh file)"
    unfolding r using load_state_fresh_if_try_fails[OF that] by simp
  have f2: "file = Absent \<or> file = Unreadable \<or> file = Unparsable \<longrightarrow> ?result = Inr ?fresh"
  proof
    assume "file = Absent \<or> file = Unreadable \<or> file = Unparsable"
    then have "isl (load_state_try float_of_str now ?fresh file)"
      by (auto simp: load_state_try_def)
    then show "?result = Inr ?fresh" by (rule fails)
  qed
  have f3: "\<forall>kvs items.
           file = Parsed (JObj kvs) \<and> map_of kvs ''seen_events'' = Some (JObj items)
           \<and> (\<exists>(h, ts) \<in> set items. isl (py_float float_of_str ts))
           \<longrightarrow> ?result = Inr ?fresh"
  proof (intro allI impI, elim conjE)
    fix kvs items
    assume "file = Parsed (JObj kvs)" "map_of kvs ''seen_events'' = Some (JObj items)"
      and "\<exists>(h, ts) \<in> set items. isl (py_float float_of_str ts)"
    then have "isl (load_state_try float_of_str now ?fresh file)"
      using convert_timestamps_fails[of items float_of_str]
      by (auto simp: load_state_try_def json_get_def json_items_def split: sum.splits)
    then show "?result = Inr ?fresh" by (rule fails)
  qed
  have f4: "\<forall>data. file = Parsed data \<and> isl (json_items data) \<longrightarrow> ?result = Inr ?fresh"
  proof (intro allI impI, elim conjE)
    fix data
    assume "file = Parsed data" "isl (json_items data)"
    then have "isl (load_state_try float_of_str now ?fresh file)"
      by (auto simp: load_state_try_def json_get_def json_items_def split: json.splits)
    then show "?result = Inr ?fresh" by (rule fails)
  qed
  have f5: "\<forall>kvs seen.
           file = Parsed (JObj kvs) \<and> map_of kvs ''seen_events'' = Some seen
           \<and> isl (json_items seen)
           \<longrightarrow> ?result = Inr ?fresh"
  proof (intro allI impI, elim conjE)
    fix kvs seen
    assume "file = Parsed (JObj kvs)" "map_of kvs ''seen_events'' = Some seen"
      "isl (json_items seen)"
    then have "isl (load_state_try float_of_str now ?fresh file)"
      by (auto simp: load_state_try_def json_get_def split: sum.splits)
    then show "?result = Inr ?fresh" by (rule fails)
  qed
  show ?thesis
    unfolding Let_def by (rule conjI[OF f1 conjI[OF f2 conjI[OF f3 conjI[OF f4 f5]]]])
qed

text \<open>
  A document with a timestamp that is no number gives the empty store, as does a file that is
  no JSON; a well-formed document is loaded, without its expired record.
\<close>

theorem load_state_never_raises_witness:
  "new_deduplicator example_float 1700000400 390 True (Parsed corrupt_state_document)
     = Inr empty_store
   \<and> new_deduplicator example_float 1700000400 390 True Unparsable = Inr empty_store
   \<and> new_deduplicator example_float 1700000400 390 True (Parsed valid_state_document)
       = Inr \<lparr>tracking_window_seconds = 390, enabled = True,
              seen_events = [(''3f2a'', 1700000100.5)]\<rparr>"
proof -
  note t = load_state_never_raises[of 390 True example_float 1700000400, unfolded Let_def]
  note t2 = t[THEN conjunct2, THEN conjunct1]
  note t3 = t[THEN conjunct2, THEN conjunct2, THEN conjunct1]
  have h: "Parsed corrupt_state_document
             = Parsed (JObj [(''seen_events'',
                              JObj [(''3f2a'', JNum 1700000100), (''9c41'', JStr ''yesterday'')]),
                             (''tracking_window_seconds'', JNum 390)])
     \<and> map_of [(''seen_events'',
                  JObj [(''3f2a'', JNum 1700000100), (''9c41'', JStr ''yesterday'')]),
                 (''tracking_window_seconds'', JNum 390)] ''seen_events''
         = Some (JObj [(''3f2a'', JNum 1700000100), (''9c41'', JStr ''yesterday'')])
     \<and> (\<exists>(h, ts) \<in> set [(''3f2a'', JNum 1700000100), (''9c41'', JStr ''yesterday'')].
           isl (py_float example_float ts))"
    by (simp add: corrupt_state_document_def example_float_def)
  have a: "new_deduplicator example_float 1700000400 390 True (Parsed corrupt_state_document)
     = Inr empty_store"
    using t3[of "Parsed corrupt_state_document", THEN spec, THEN spec, THEN mp, OF h]
    by (simp add: empty_store_def)
  have b: "new_deduplicator example_float 1700000400 390 True Unparsable = Inr empty_store"
    using t2[of Unparsable] by (simp add: empty_store_def)
  have c: "new_deduplicator example_float 1700000400 390 True (Parsed valid_state_document)
       = Inr \<lparr>tracking_window_seconds = 390, enabled = True,
              seen_events = [(''3f2a'', 1700000100.5)]\<rparr>"
    by (simp add: new_deduplicator_def load_state_def load_state_try_def json_get_def
        json_items_def valid_state_document_def example_float_def cleanup_old_entries_def)
  show ?thesis by (rule conjI[OF a conjI[OF b c]])
qed

subsection \<open>The sink's confirmation\<close>

lemma send_events_nonempty:
  "log_entries \<noteq> [] \<Longrightarrow>
   send_events post json_dumps parse_timestamp clock cfg log_entries =
     (case post (hec_url cfg)
             (ndjson_payload json_dumps parse_timestamp clock cfg log_entries) of
        Request_failed \<Rightarrow> Inl SplunkHECError
      | Responded status body \<Rightarrow>
          if raises_for_status status then Inl SplunkHECError
          else (case body of
                  None \<Rightarrow> Inl SplunkHECError
                | Some (JObj kvs) \<Rightarrow>
                    if map_of kvs ''text'' = Some (JStr ''Success'') then Inr True
                    else Inl SplunkHECError
                | Some _ \<Rightarrow> Inl AttributeError))"
  by (auto simp: send_events_def Let_def json_get_def
      split: http_outcome.splits option.splits json.splits)

lemma send_events_non_object_body:
  "log_entries \<noteq> [] \<Longrightarrow>
   post (hec_url cfg) (ndjson_payload json_dumps parse_timestamp clock cfg log_entries)
     = Responded 200 (Some (JArr [])) \<Longrightarrow>
   send_events post json_dumps parse_timestamp clock cfg log_entries = Inl AttributeError"
  by (simp add: send_events_nonempty raises_for_status_def)





subsection \<open>A secret that cannot be decoded\<close>

text \<open>
  C7, as amended.  In keyed credential mode, for every secret that the base64url decoder
  rejects after padding, producing the signature fails by raising \<open>CrusoeAPIError\<close>, the
  class that the client also raises for transient failures of the source API.  The error
  leaves \<open>get_audit_logs\<close> before any request is handed to the session, and the paginated
  fetch raises it after that single call: the failing request is not retried.
\<close>

theorem malformed_secret_raises_api_error:
  assumes "\<not> truthy (api_token cfg)" and "truthy (access_key_id cfg)"
    and "secret_access_key cfg = Some secret" and "secret \<noteq> []"
    and "urlsafe_b64decode lib
           (secret @ replicate (nat ((- int (length secret)) mod 4)) (CHR ''='')) = None"
  shows "create_crusoe_signature lib now_str cfg method url params = Inl CrusoeAPIError
       \<and> sign_request lib now_str cfg method url params = Inl CrusoeAPIError
       \<and> get_audit_logs lib now_str isoformat session_get cfg start_time end_time limit offset
           = (Inl CrusoeAPIError, 0)
       \<and> (0 < fuel \<and> \<not> cap_reached max_pages 0 \<longrightarrow>
            get_audit_logs_paginated fuel
              (client_pages lib now_str isoformat session_get cfg start_time end_time)
              page_size max_pages
            = Some ([(page_size, 0)], Inl CrusoeAPIError))"
proof -
  have sig: "create_crusoe_signature lib now_str cfg m u ps = Inl CrusoeAPIError" for m u ps
    using assms(3,5) by (simp add: create_crusoe_signature_def Let_def)
  have sgn: "sign_request lib now_str cfg m u ps = Inl CrusoeAPIError" for m u ps
    using assms(1,2,3,4) sig by (simp add: sign_request_def truthy_def)
  have gal: "get_audit_logs lib now_str isoformat session_get cfg start_time end_time l off
               = (Inl CrusoeAPIError, 0)" for l off
    by (simp add: get_audit_logs_def Let_def sgn)
  have pg: "get_audit_logs_paginated fuel
              (client_pages lib now_str isoformat session_get cfg start_time end_time)
              page_size max_pages
            = Some ([(page_size, 0)], Inl CrusoeAPIError)"
    if fu: "0 < fuel" and cap: "\<not> cap_reached max_pages 0"
  proof -
    obtain n where n: "fuel = Suc n" using fu by (cases fuel) auto
    show ?thesis
      using cap
      by (simp add: get_audit_logs_paginated_def n client_pages_def gal page_of_logs_def)
  qed
  have pg': "0 < fuel \<and> \<not> cap_reached max_pages 0 \<longrightarrow>
            get_audit_logs_paginated fuel
              (client_pages lib now_str isoformat session_get cfg start_time end_time)
              page_size max_pages
            = Some ([(page_size, 0)], Inl CrusoeAPIError)"
    using pg by blast
  show ?thesis by (rule conjI[OF sig conjI[OF sgn conjI[OF gal pg']]])
qed

text \<open>
  The claim as stated fails: the program has no \<open>AuthenticationConfigError\<close>.  A secret of
  nine characters, which no padding makes decodable, and a source that cannot be reached
  make \<open>get_audit_logs\<close> raise the same exception.
\<close>

theorem malformed_secret_counterexample:
  "fst (get_audit_logs example_lib ''2024-05-01 10:00:00+00:00'' example_isoformat
          session_unreachable keyed_config None None (Some 100) (Some 0))
     = Inl CrusoeAPIError
   \<and> fst (get_audit_logs example_lib ''2024-05-01 10:00:00+00:00'' example_isoformat
          session_unreachable token_config None None (Some 100) (Some 0))
     = Inl CrusoeAPIError"
  by (simp add: get_audit_logs_def sign_request_def create_crusoe_signature_def truthy_def
      keyed_config_def token_config_def example_lib_def example_decode_def
      session_unreachable_def Let_def)

theorem malformed_secret_raises_api_error_witness:
  "\<not> truthy (api_token keyed_config) \<and> truthy (access_key_id keyed_config)
   \<and> secret_access_key keyed_config = Some ''c2VjcmV0a'' \<and> ''c2VjcmV0a'' \<noteq> []
   \<and> urlsafe_b64decode example_lib
         (''c2VjcmV0a'' @ replicate (nat ((- int (length ''c2VjcmV0a'')) mod 4)) (CHR ''=''))
       = None
   \<and> get_audit_logs example_lib ''2024-05-01 10:00:00+00:00'' example_isoformat
        session_unreachable keyed_config None None (Some 100) (Some 0)
       = (Inl CrusoeAPIError, 0)
   \<and> get_audit_logs_paginated 5
        (client_pages example_lib ''2024-05-01 10:00:00+00:00'' example_isoformat
           session_unreachable keyed_config None None) 100 None
       = Some ([(100, 0)], Inl CrusoeAPIError)"
proof -
  have h1: "\<not> truthy (api_token keyed_config)" by (simp add: keyed_config_def truthy_def)
  have h2: "truthy (access_key_id keyed_config)" by (simp add: keyed_config_def truthy_def)
  have h3: "secret_access_key keyed_config = Some ''c2VjcmV0a''"
    by (simp add: keyed_config_def)
  have h4: "''c2VjcmV0a'' \<noteq> []" by simp
  have h5: "urlsafe_b64decode example_lib
         (''c2VjcmV0a'' @ replicate (nat ((- int (length ''c2VjcmV0a'')) mod 4)) (CHR ''=''))
       = None"
    by (simp add: example_lib_def example_decode_def)
  note t = malformed_secret_raises_api_error[OF h1 h2 h3 h4 h5,
      where now_str = "''2024-05-01 10:00:00+00:00''" and isoformat = example_isoformat
      and session_get = session_unreachable and start_time = None and end_time = None]
  have a: "get_audit_logs example_lib ''2024-05-01 10:00:00+00:00'' example_isoformat
        session_unreachable keyed_config None None (Some 100) (Some 0)
       = (Inl CrusoeAPIError, 0)"
    using t[THEN conjunct2, THEN conjunct2, THEN conjunct1] .
  have pre: "(0::nat) < 5 \<and> \<not> cap_reached None 0" by (simp add: cap_reached_def)
  have b: "get_audit_logs_paginated 5
        (client_pages example_lib ''2024-05-01 10:00:00+00:00'' example_isoformat
           session_unreachable keyed_config None None) 100 None
       = Some ([(100, 0)], Inl CrusoeAPIError)"
    using t[THEN conjunct2, THEN conjunct2, THEN conjunct2, THEN mp, OF pre] .
  show ?thesis
    by (rule conjI[OF h1 conjI[OF h2 conjI[OF h3 conjI[OF h4 conjI[OF h5 conjI[OF a b]]]]]])
qed

subsection \<open>The windows of the daemon\<close>








subsection \<open>Pagination\<close>












end
